theory Spec2Isabelle
  imports Complex_Main
begin

section \<open>Numbers, errors and the random source\<close>

text \<open>
  The script \<^verbatim>\<open>src/main.ts\<close> computes with JavaScript numbers, which are
  binary64 floating-point numbers. A finite one is modelled by the real it denotes. The
  arithmetic of the star field generator is modelled with its rounding, see the next
  section. The rotation angles of the frame and the aspect of the camera are the
  products and the quotient the script computes; they are written with the exact
  operation, and the quotient \<^verbatim>\<open>window.innerWidth / window.innerHeight\<close> has
  the three non-finite values of a JavaScript number in its result type.
\<close>

datatype jsnum = Finite real | PosInfinity | NegInfinity | NaN

text \<open>\<^verbatim>\<open>a / b\<close> for finite \<open>a\<close> and a finite \<open>b\<close> that is not \<open>-0\<close>.\<close>

definition js_div :: "real \<Rightarrow> real \<Rightarrow> jsnum" where
  "js_div a b =
     (if b \<noteq> 0 then Finite (a / b)
      else if 0 < a then PosInfinity
      else if a < 0 then NegInfinity
      else NaN)"

text \<open>What a statement of the script can throw.\<close>

datatype error = RangeError | LoadError string

text \<open>
  \<^verbatim>\<open>Math.random()\<close> is not seeded. Its future results are a parameter of the
  model: \<open>g k\<close> is what the \<open>k\<close>-th coming call returns, and a call consumes one.
\<close>

type_synonym rng = "nat \<Rightarrow> real"

definition Math_random :: "rng \<Rightarrow> real \<times> rng" where
  "Math_random g = (g 0, \<lambda>k. g (Suc k))"

text \<open>The contract of \<^verbatim>\<open>Math.random\<close>: every result is in \<open>[0, 1)\<close>.\<close>

definition unit_rng :: "rng \<Rightarrow> bool" where
  "unit_rng g \<longleftrightarrow> (\<forall>k. 0 \<le> g k \<and> g k < 1)"

text \<open>The source that returns the same number at every call.\<close>

definition constRng :: "real \<Rightarrow> rng" where
  "constRng c = (\<lambda>k. c)"

text \<open>The source that returns the numbers of a list, one per call, and then 0.\<close>

definition rngOf :: "real list \<Rightarrow> rng" where
  "rngOf xs = (\<lambda>k. if k < length xs then xs ! k else 0)"

type_synonym vec3 = "real \<times> real \<times> real"

type_synonym quat = "real \<times> real \<times> real \<times> real"

section \<open>Binary floating-point arithmetic\<close>

text \<open>
  Rounding to the nearest number with \<open>p\<close> significant bits and least exponent
  \<open>emin\<close>, ties to the even significand, as IEEE 754 prescribes for binary64
  (\<open>p = 53\<close>, \<open>emin = -1074\<close>) and binary32 (\<open>p = 24\<close>, \<open>emin = -149\<close>).
  \<open>roundEven\<close> rounds to the nearest integer, \<open>ulpExp\<close> is the exponent of the
  unit in the last place at \<open>x\<close>, and \<open>roundTo\<close> rounds as if the exponent had
  no upper bound.
\<close>

definition roundEven :: "real \<Rightarrow> int" where
  "roundEven q =
     (let n = \<lfloor>q\<rfloor>; f = q - of_int n
      in if f < 1/2 then n else if 1/2 < f then n + 1 else if even n then n else n + 1)"

definition ulpExp :: "nat \<Rightarrow> int \<Rightarrow> real \<Rightarrow> int" where
  "ulpExp p emin x = max (\<lfloor>log 2 \<bar>x\<bar>\<rfloor> - (int p - 1)) emin"

definition roundTo :: "nat \<Rightarrow> int \<Rightarrow> real \<Rightarrow> real" where
  "roundTo p emin x =
     (if x = 0 then 0
      else of_int (roundEven (x / 2 powi ulpExp p emin x)) * 2 powi ulpExp p emin x)"

text \<open>
  A value of the star field computation: a finite number, or one of \<open>NaN\<close>,
  \<open>Infinity\<close> and \<open>-Infinity\<close>, which are not told apart. A sum or product with a
  non-finite operand is non-finite, and so are the sine, cosine and arc cosine of one.
\<close>

datatype num = Num real | NonFinite

definition maxDouble :: real where
  "maxDouble = (2 ^ 53 - 1) * 2 ^ 971"

definition maxFloat :: real where
  "maxFloat = (2 ^ 24 - 1) * 2 ^ 104"

text \<open>The binary64 result of an exact value; beyond the largest double it is infinite.\<close>

definition rnd64 :: "real \<Rightarrow> num" where
  "rnd64 x = (let y = roundTo 53 (- 1074) x in if \<bar>y\<bar> \<le> maxDouble then Num y else NonFinite)"

text \<open>The binary32 value stored for a double, as a store into a \<^verbatim>\<open>Float32Array\<close> does.\<close>

definition rnd32 :: "real \<Rightarrow> num" where
  "rnd32 x = (let y = roundTo 24 (- 149) x in if \<bar>y\<bar> \<le> maxFloat then Num y else NonFinite)"

text \<open>A real is a double when rounding to binary64 leaves it as it is.\<close>

definition isDouble :: "real \<Rightarrow> bool" where
  "isDouble x \<longleftrightarrow> rnd64 x = Num x"

fun add64 :: "num \<Rightarrow> num \<Rightarrow> num" where
  "add64 (Num a) (Num b) = rnd64 (a + b)"
| "add64 _ _ = NonFinite"

fun sub64 :: "num \<Rightarrow> num \<Rightarrow> num" where
  "sub64 (Num a) (Num b) = rnd64 (a - b)"
| "sub64 _ _ = NonFinite"

fun mul64 :: "num \<Rightarrow> num \<Rightarrow> num" where
  "mul64 (Num a) (Num b) = rnd64 (a * b)"
| "mul64 _ _ = NonFinite"

fun fround :: "num \<Rightarrow> num" where
  "fround (Num a) = rnd32 a"
| "fround NonFinite = NonFinite"

text \<open>
  What the language leaves to the engine: \<^verbatim>\<open>Math.sin\<close>, \<^verbatim>\<open>Math.cos\<close> and
  \<^verbatim>\<open>Math.acos\<close> are implementation-approximated, and the longest typed array
  that can be allocated differs between engines. They are parameters of the model. The
  arc cosine of a number outside \<open>[-1, 1]\<close> is \<open>NaN\<close> in every engine.
\<close>

record engine =
  Math_sin :: "real \<Rightarrow> real"
  Math_cos :: "real \<Rightarrow> real"
  Math_acos :: "real \<Rightarrow> real"
  maxArrayLength :: nat

fun sin64 :: "engine \<Rightarrow> num \<Rightarrow> num" where
  "sin64 E (Num a) = Num (Math_sin E a)"
| "sin64 E NonFinite = NonFinite"

fun cos64 :: "engine \<Rightarrow> num \<Rightarrow> num" where
  "cos64 E (Num a) = Num (Math_cos E a)"
| "cos64 E NonFinite = NonFinite"

fun acos64 :: "engine \<Rightarrow> num \<Rightarrow> num" where
  "acos64 E (Num a) = (if - 1 \<le> a \<and> a \<le> 1 then Num (Math_acos E a) else NonFinite)"
| "acos64 E NonFinite = NonFinite"

text \<open>\<^verbatim>\<open>Math.PI\<close> is the double nearest to \<open>pi\<close>.\<close>

definition Math_PI :: real where
  "Math_PI = roundTo 53 (- 1074) pi"

text \<open>
  An engine is accurate when its sine and cosine are within 2 to the power -50 of the
  true values. Nothing is asked of its arc cosine.
\<close>

definition accurate :: "engine \<Rightarrow> bool" where
  "accurate E \<longleftrightarrow>
     (\<forall>t. \<bar>Math_sin E t - sin t\<bar> \<le> 1 / 2 ^ 50 \<and> \<bar>Math_cos E t - cos t\<bar> \<le> 1 / 2 ^ 50)"

text \<open>
  The engine whose three functions are correctly rounded, with a typed-array limit of
  4294967295 elements.
\<close>

definition idealEngine :: engine where
  "idealEngine =
     \<lparr> Math_sin = (\<lambda>t. roundTo 53 (- 1074) (sin t)),
       Math_cos = (\<lambda>t. roundTo 53 (- 1074) (cos t)),
       Math_acos = (\<lambda>t. roundTo 53 (- 1074) (arccos t)),
       maxArrayLength = 4294967295 \<rparr>"

section \<open>The star field generator\<close>

text \<open>
  \<^verbatim>\<open>function makeStarField(opts: { count: number; radius: number; depth: number })\<close>.
  The count is an integer, as in the only call of the script; a negative one is kept
  in the type because \<^verbatim>\<open>new Float32Array(n)\<close> throws a RangeError for \<open>n < 0\<close>.
  The radius and the depth are finite numbers.
\<close>

record opts =
  count :: int
  radius :: real
  depth :: real

text \<open>
  The material of the point cloud and the cloud itself: \<^verbatim>\<open>THREE.Points\<close> over a
  \<^verbatim>\<open>BufferGeometry\<close> whose \<^verbatim>\<open>position\<close> attribute is the flat array with
  item size 3. The array holds binary32 values.
\<close>

record pointsMaterial =
  pm_color :: nat
  pm_size :: real
  pm_sizeAttenuation :: bool
  pm_transparent :: bool
  pm_opacity :: real
  pm_depthWrite :: bool

record points =
  positions :: "num list"
  itemSize :: nat
  points_material :: pointsMaterial

text \<open>
  One pass of the loop body, lines 175 to 187: three calls of \<^verbatim>\<open>Math.random()\<close>
  in the order \<open>r\<close>, \<open>u\<close>, \<open>v\<close>, the arithmetic in binary64 with the
  products taken from left to right, then the three stores, each rounding to binary32.
  A store into a typed array beyond its length is ignored, as \<open>list_update\<close> does.
\<close>

definition starBody :: "engine \<Rightarrow> real \<Rightarrow> real \<Rightarrow> nat \<Rightarrow> rng \<Rightarrow> num list \<Rightarrow> num list \<times> rng" where
  "starBody E rad dep i g ps =
     (let (a, g1) = Math_random g;
          r = add64 (Num rad) (mul64 (Num a) (Num dep));
          (u, g2) = Math_random g1;
          (v, g3) = Math_random g2;
          theta = mul64 (mul64 (Num 2) (Num Math_PI)) (Num u);
          phi = acos64 E (sub64 (mul64 (Num 2) (Num v)) (Num 1));
          x = mul64 (mul64 r (sin64 E phi)) (cos64 E theta);
          y = mul64 (mul64 r (sin64 E phi)) (sin64 E theta);
          z = mul64 r (cos64 E phi);
          ps1 = ps[i * 3 + 0 := fround x];
          ps2 = ps1[i * 3 + 1 := fround y];
          ps3 = ps2[i * 3 + 2 := fround z]
      in (ps3, g3))"

text \<open>\<^verbatim>\<open>for (let i = 0; i < count; i++) { ... }\<close>\<close>

function starLoop :: "engine \<Rightarrow> int \<Rightarrow> real \<Rightarrow> real \<Rightarrow> nat \<Rightarrow> rng \<Rightarrow> num list \<Rightarrow> num list \<times> rng" where
  "starLoop E cnt rad dep i g ps =
     (if int i < cnt
      then (let (ps', g') = starBody E rad dep i g ps in starLoop E cnt rad dep (i + 1) g' ps')
      else (ps, g))"
  by pat_completeness auto
termination
  by (relation "measure (\<lambda>(E, cnt, rad, dep, i, g, ps). nat (cnt - int i))") auto

declare starLoop.simps [simp del]

text \<open>
  \<^verbatim>\<open>new Float32Array(n)\<close> for an integer \<open>n\<close>: \<open>n\<close> zeros, or a
  RangeError when \<open>n\<close> is negative or more than the engine can allocate.
\<close>

definition Float32Array :: "engine \<Rightarrow> int \<Rightarrow> error + num list" where
  "Float32Array E n =
     (if n < 0 \<or> int (maxArrayLength E) < n then Inl RangeError
      else Inr (replicate (nat n) (Num 0)))"

text \<open>
  The function returns the cloud. The constructors of three.js that it calls draw
  random numbers of their own for identifiers, so what \<^verbatim>\<open>Math.random\<close> returns
  after the call is not part of the result.
\<close>

definition makeStarField :: "engine \<Rightarrow> opts \<Rightarrow> rng \<Rightarrow> error + points" where
  "makeStarField E os g =
     (case Float32Array E (count os * 3) of
        Inl e \<Rightarrow> Inl e
      | Inr ps0 \<Rightarrow>
          (let (ps, g') = starLoop E (count os) (radius os) (depth os) 0 g ps0;
               mat = \<lparr> pm_color = 0xffffff, pm_size = 1.2, pm_sizeAttenuation = True,
                       pm_transparent = True, pm_opacity = 0.9, pm_depthWrite = False \<rparr>
           in Inr \<lparr> positions = ps, itemSize = 3, points_material = mat \<rparr>))"

text \<open>
  Reading the cloud back: the number of points of a buffer attribute is the length of
  its array divided by the item size, point \<open>k\<close> is the \<open>k\<close>-th triple, and its
  distance from the origin is the Euclidean norm of the stored values, which is not a
  number when one of them is not finite.
\<close>

definition pointCount :: "points \<Rightarrow> nat" where
  "pointCount p = length (positions p) div itemSize p"

definition point :: "points \<Rightarrow> nat \<Rightarrow> num \<times> num \<times> num" where
  "point p k = (positions p ! (k * 3), positions p ! (k * 3 + 1), positions p ! (k * 3 + 2))"

definition norm3 :: "vec3 \<Rightarrow> real" where
  "norm3 w = (case w of (x, y, z) \<Rightarrow> sqrt (x * x + y * y + z * z))"

fun distance :: "num \<times> num \<times> num \<Rightarrow> num" where
  "distance (Num x, Num y, Num z) = Num (norm3 (x, y, z))"
| "distance _ = NonFinite"

text \<open>The closed interval of the spec, from \<open>radius\<close> to \<open>radius + depth\<close>.\<close>

fun inShell :: "opts \<Rightarrow> num \<Rightarrow> bool" where
  "inShell os (Num d) \<longleftrightarrow> radius os \<le> d \<and> d \<le> radius os + depth os"
| "inShell os NonFinite \<longleftrightarrow> False"

text \<open>
  The radius drawn for point \<open>k\<close>: the first of the three calls of pass \<open>k\<close>,
  scaled and added as in line 175.
\<close>

definition sampledR :: "opts \<Rightarrow> rng \<Rightarrow> nat \<Rightarrow> num" where
  "sampledR os g k = add64 (Num (radius os)) (mul64 (Num (g (3 * k))) (Num (depth os)))"

text \<open>
  The point that lines 178 to 187 compute and store for a radius \<open>r\<close> and the draws
  \<open>u\<close> and \<open>v\<close>.
\<close>

definition starPoint :: "engine \<Rightarrow> num \<Rightarrow> real \<Rightarrow> real \<Rightarrow> num \<times> num \<times> num" where
  "starPoint E r u v =
     (let theta = mul64 (mul64 (Num 2) (Num Math_PI)) (Num u);
          phi = acos64 E (sub64 (mul64 (Num 2) (Num v)) (Num 1));
          x = mul64 (mul64 r (sin64 E phi)) (cos64 E theta);
          y = mul64 (mul64 r (sin64 E phi)) (sin64 E theta);
          z = mul64 r (cos64 E phi)
      in (fround x, fround y, fround z))"

text \<open>The same point in exact arithmetic, for a radius and the two angles.\<close>

definition sphere :: "real \<Rightarrow> real \<Rightarrow> real \<Rightarrow> vec3" where
  "sphere r phi theta = (r * sin phi * cos theta, r * sin phi * sin theta, r * cos phi)"

text \<open>The double that the literal \<^verbatim>\<open>0.1\<close> denotes.\<close>

definition tenth :: real where
  "tenth = 3602879701896397 / 36028797018963968"

section \<open>Textures\<close>

datatype colorSpace = NoColorSpace | SRGBColorSpace

record texture =
  url :: string
  colorSpace :: colorSpace

text \<open>
  \<^verbatim>\<open>THREE.TextureLoader.load\<close> is code of the three.js library. In \<open>compose\<close>
  it is a parameter: for a path it either returns a texture handle or throws. The script
  gives it no completion callback, so a texture that finishes or fails later runs no
  code of the script.
\<close>

type_synonym loader = "string \<Rightarrow> error + texture"

text \<open>
  \<^verbatim>\<open>function tryLoad(path, l) { try { return l.load(path); } catch { return null; } }\<close>
\<close>

definition tryLoad :: "string \<Rightarrow> loader \<Rightarrow> texture option" where
  "tryLoad path l = (case l path of Inr t \<Rightarrow> Some t | Inl e \<Rightarrow> None)"

text \<open>\<^verbatim>\<open>if (m) m.colorSpace = THREE.SRGBColorSpace;\<close>\<close>

definition tagSRGB :: "texture option \<Rightarrow> texture option" where
  "tagSRGB m = (case m of None \<Rightarrow> None | Some t \<Rightarrow> Some (t\<lparr>colorSpace := SRGBColorSpace\<rparr>))"

definition dayPath :: string where "dayPath = ''/textures/earth_day.jpg''"
definition normalPath :: string where "normalPath = ''/textures/earth_normal.jpg''"
definition specularPath :: string where "specularPath = ''/textures/earth_specular.jpg''"
definition nightPath :: string where "nightPath = ''/textures/earth_night.jpg''"
definition cloudsPath :: string where "cloudsPath = ''/textures/earth_clouds.png''"

section \<open>Scene objects\<close>

datatype blending = NormalBlending | AdditiveBlending

datatype side = FrontSide | BackSide

datatype materialKind = MeshPhongMaterial | MeshBasicMaterial | MeshLambertMaterial

record material =
  kind :: materialKind
  map_tex :: "texture option"
  normalMap :: "texture option"
  specularMap :: "texture option"
  color :: nat
  specular :: nat
  shininess :: real
  transparent :: bool
  opacity :: real
  depthWrite :: bool
  blending :: blending
  side :: side

text \<open>A material with the defaults of three.js, before the options of the call.\<close>

definition Material :: "materialKind \<Rightarrow> material" where
  "Material k =
     \<lparr> kind = k, map_tex = None, normalMap = None, specularMap = None,
       color = 0xffffff, specular = 0x111111, shininess = 30,
       transparent = False, opacity = 1, depthWrite = True,
       blending = NormalBlending, side = FrontSide \<rparr>"

record sphereGeometry =
  sphereRadius :: real
  widthSegments :: nat
  heightSegments :: nat

definition SphereGeometry :: "real \<Rightarrow> nat \<Rightarrow> nat \<Rightarrow> sphereGeometry" where
  "SphereGeometry r w h = \<lparr> sphereRadius = r, widthSegments = w, heightSegments = h \<rparr>"

text \<open>
  A mesh, with the two properties of \<^verbatim>\<open>Object3D\<close> the script writes. A new
  object of three.js has render order 0 and no rotation.
\<close>

record mesh =
  geometry :: sphereGeometry
  mesh_material :: material
  renderOrder :: int
  rotation_y :: real

definition Mesh :: "sphereGeometry \<Rightarrow> material \<Rightarrow> mesh" where
  "Mesh geo mat = \<lparr> geometry = geo, mesh_material = mat, renderOrder = 0, rotation_y = 0 \<rparr>"

record light =
  light_color :: nat
  intensity :: real
  light_position :: vec3

text \<open>\<^verbatim>\<open>Vector3.normalize\<close> divides by the length, or by 1 when the length is 0.\<close>

definition normalize :: "vec3 \<Rightarrow> vec3" where
  "normalize w =
     (case w of (x, y, z) \<Rightarrow>
        (let n = norm3 w; d = (if n = 0 then 1 else n) in (x / d, y / d, z / d)))"

section \<open>Camera, controls and renderer\<close>

text \<open>
  The projection matrix is kept as the four numbers it was last computed from; it is
  current when they are the camera's.
\<close>

datatype projection = Perspective real jsnum real real

record perspectiveCamera =
  fov :: real
  aspect :: jsnum
  near :: real
  far :: real
  position :: vec3
  quaternion :: quat
  projectionMatrix :: projection

definition updateProjectionMatrix :: "perspectiveCamera \<Rightarrow> perspectiveCamera" where
  "updateProjectionMatrix c = c\<lparr>projectionMatrix := Perspective (fov c) (aspect c) (near c) (far c)\<rparr>"

definition PerspectiveCamera :: "real \<Rightarrow> jsnum \<Rightarrow> real \<Rightarrow> real \<Rightarrow> perspectiveCamera" where
  "PerspectiveCamera f a n fr =
     updateProjectionMatrix
       \<lparr> fov = f, aspect = a, near = n, far = fr, position = (0, 0, 0),
         quaternion = (0, 0, 0, 1), projectionMatrix = Perspective f a n fr \<rparr>"

text \<open>
  \<^verbatim>\<open>OrbitControls\<close> is code of three.js. The four properties the script assigns are
  fields; everything else the component keeps between frames is \<open>internal\<close>, of a type
  the model leaves open. Its \<^verbatim>\<open>update()\<close> is a parameter: from the controls
  and the camera's position and orientation it gives the new internal state and the new
  position and orientation.
\<close>

record 'o orbitControls =
  enableDamping :: bool
  dampingFactor :: real
  minDistance :: real
  maxDistance :: real
  internal :: 'o

type_synonym pose = "vec3 \<times> quat"

type_synonym 'o orbitUpdate = "'o orbitControls \<Rightarrow> pose \<Rightarrow> 'o \<times> pose"

datatype toneMapping = NoToneMapping | ACESFilmicToneMapping

record renderer =
  antialias :: bool
  pixelRatio :: real
  width :: nat
  height :: nat
  outputColorSpace :: colorSpace
  toneMapping :: toneMapping
  toneMappingExposure :: real

definition setPixelRatio :: "real \<Rightarrow> renderer \<Rightarrow> renderer" where
  "setPixelRatio v r = r\<lparr>pixelRatio := v\<rparr>"

definition setSize :: "nat \<Rightarrow> nat \<Rightarrow> renderer \<Rightarrow> renderer" where
  "setSize w h r = r\<lparr>width := w, height := h\<rparr>"

text \<open>What the script reads from \<^verbatim>\<open>window\<close>.\<close>

record window =
  innerWidth :: nat
  innerHeight :: nat
  devicePixelRatio :: real

section \<open>The state of the script\<close>

text \<open>
  The module-level variables of the script. The children of the scene are listed by
  name, in the order of the \<^verbatim>\<open>scene.add\<close> calls; the objects themselves are the
  variables. \<open>rendered\<close> counts the calls of \<^verbatim>\<open>renderer.render\<close> and
  \<open>requested\<close> those of \<^verbatim>\<open>requestAnimationFrame\<close>.
\<close>

datatype object = Sun | Ambient | Earth | NightLights | Clouds | Atmosphere | Stars

record 'o state =
  renderer :: renderer
  scene :: "object list"
  camera :: perspectiveCamera
  controls :: "'o orbitControls"
  sun :: light
  ambient :: light
  earth :: mesh
  nightMesh :: "mesh option"
  clouds :: "mesh option"
  atmosphere :: mesh
  stars :: points
  rendered :: nat
  requested :: nat

text \<open>
  Lines 13 to 123: everything the script builds before the first frame. The only
  statement that can throw on a texture is the load of the day map, which is outside
  \<^verbatim>\<open>tryLoad\<close>. \<open>o0\<close> is the internal state of the new controls; what
  their constructor does to the position and orientation of the camera is left out, and
  so is the creation of the canvas in lines 4 to 11.
\<close>

definition compose :: "engine \<Rightarrow> window \<Rightarrow> loader \<Rightarrow> rng \<Rightarrow> 'o \<Rightarrow> error + 'o state" where
  "compose E win l g o0 =
     (let rend = \<lparr> antialias = True, pixelRatio = min (devicePixelRatio win) 2,
                    width = innerWidth win, height = innerHeight win,
                    outputColorSpace = SRGBColorSpace, toneMapping = ACESFilmicToneMapping,
                    toneMappingExposure = 1.2 \<rparr>;
          cam = (PerspectiveCamera 45 (js_div (real (innerWidth win)) (real (innerHeight win)))
                   0.1 2000)\<lparr>position := (0, 0, 6)\<rparr>;
          ctl = \<lparr> enableDamping = True, dampingFactor = 0.06, minDistance = 3.0,
                   maxDistance = 20.0, internal = o0 \<rparr>;
          sunL = \<lparr> light_color = 0xffffff, intensity = 3.0, light_position = (5, 2, 5) \<rparr>;
          ambientL = \<lparr> light_color = 0xffffff, intensity = 0.2, light_position = (0, 0, 0) \<rparr>
      in case l dayPath of
           Inl e \<Rightarrow> Inl e
         | Inr dayMap0 \<Rightarrow>
            (let dayMap = dayMap0\<lparr>colorSpace := SRGBColorSpace\<rparr>;
                 normalMapT = tryLoad normalPath l;
                 specMap = tryLoad specularPath l;
                 nightMap = tagSRGB (tryLoad nightPath l);
                 cloudsMap = tagSRGB (tryLoad cloudsPath l);
                 earthGeo = SphereGeometry 1 128 128;
                 earthMat = (Material MeshPhongMaterial)
                   \<lparr> map_tex := Some dayMap, normalMap := normalMapT, specularMap := specMap,
                     specular := 0x333333, shininess := 18 \<rparr>;
                 earthM = Mesh earthGeo earthMat;
                 nightM =
                   (case nightMap of
                      None \<Rightarrow> None
                    | Some nm \<Rightarrow>
                        (let nightMat = (Material MeshBasicMaterial)
                               \<lparr> map_tex := Some nm, blending := AdditiveBlending,
                                 transparent := True, depthWrite := False \<rparr>
                         in Some ((Mesh earthGeo nightMat)\<lparr>renderOrder := 1\<rparr>)));
                 cloudsM =
                   (case cloudsMap of
                      None \<Rightarrow> None
                    | Some cm \<Rightarrow>
                        (let cloudsGeo = SphereGeometry 1.008 128 128;
                             cloudsMat = (Material MeshLambertMaterial)
                               \<lparr> map_tex := Some cm, transparent := True, opacity := 0.75,
                                 depthWrite := False \<rparr>
                         in Some ((Mesh cloudsGeo cloudsMat)\<lparr>renderOrder := 2\<rparr>)));
                 atmoGeo = SphereGeometry 1.03 128 128;
                 atmoMat = (Material MeshBasicMaterial)
                   \<lparr> color := 0x66aaff, transparent := True, opacity := 0.08,
                     blending := AdditiveBlending, side := BackSide \<rparr>;
                 atmosphereM = (Mesh atmoGeo atmoMat)\<lparr>renderOrder := 3\<rparr>
             in case makeStarField E \<lparr> count = 8000, radius = 900, depth = 600 \<rparr> g of
                  Inl e \<Rightarrow> Inl e
                | Inr starsP \<Rightarrow>
                    Inr \<lparr> renderer = rend,
                          scene = [Sun, Ambient, Earth]
                            @ (case nightM of None \<Rightarrow> [] | Some n \<Rightarrow> [NightLights])
                            @ (case cloudsM of None \<Rightarrow> [] | Some c \<Rightarrow> [Clouds])
                            @ [Atmosphere, Stars],
                          camera = cam, controls = ctl, sun = sunL, ambient = ambientL,
                          earth = earthM, nightMesh = nightM, clouds = cloudsM,
                          atmosphere = atmosphereM, stars = starsP,
                          rendered = 0, requested = 0 \<rparr>))"

section \<open>The frame and the resize listener\<close>

text \<open>
  \<^verbatim>\<open>function tick()\<close>, lines 128 to 149. \<open>t\<close> is what
  \<^verbatim>\<open>clock.getElapsedTime()\<close> returned. The light direction of line 139 is
  computed and not used.
\<close>

definition tick :: "'o orbitUpdate \<Rightarrow> real \<Rightarrow> 'o state \<Rightarrow> 'o state" where
  "tick update t s =
     (let s1 = s\<lparr>earth := (earth s)\<lparr>rotation_y := t * 0.08\<rparr>\<rparr>;
          s2 = (case clouds s1 of
                  None \<Rightarrow> s1
                | Some c \<Rightarrow> s1\<lparr>clouds := Some (c\<lparr>rotation_y := t * 0.11\<rparr>)\<rparr>);
          s3 = (case nightMesh s2 of
                  None \<Rightarrow> s2
                | Some n \<Rightarrow>
                    (let lightDir = normalize (light_position (sun s2))
                     in s2\<lparr>nightMesh :=
                           Some (n\<lparr>mesh_material := (mesh_material n)\<lparr>opacity := 0.6\<rparr>\<rparr>)\<rparr>));
          (o', p', q') = update (controls s3) (position (camera s3), quaternion (camera s3));
          s4 = s3\<lparr>controls := (controls s3)\<lparr>internal := o'\<rparr>,
                  camera := (camera s3)\<lparr>position := p', quaternion := q'\<rparr>\<rparr>;
          s5 = s4\<lparr>rendered := rendered s4 + 1\<rparr>
      in s5\<lparr>requested := requested s5 + 1\<rparr>)"

text \<open>The listener of lines 153 to 158, with the window as it is when the event fires.\<close>

definition resize :: "window \<Rightarrow> 'o state \<Rightarrow> 'o state" where
  "resize win s =
     (let s1 = s\<lparr>camera :=
                  (camera s)\<lparr>aspect := js_div (real (innerWidth win)) (real (innerHeight win))\<rparr>\<rparr>;
          s2 = s1\<lparr>camera := updateProjectionMatrix (camera s1)\<rparr>;
          s3 = s2\<lparr>renderer := setSize (innerWidth win) (innerHeight win) (renderer s2)\<rparr>
      in s3\<lparr>renderer := setPixelRatio (min (devicePixelRatio win) 2) (renderer s3)\<rparr>)"

text \<open>
  After start-up the host runs the script only through these two entry points: a frame
  that was requested, or a resize event. A run is the start-up, the first call of
  \<open>tick\<close> in line 150, and any sequence of them.
\<close>

datatype event = Frame real | Resize window

fun step :: "'o orbitUpdate \<Rightarrow> 'o state \<Rightarrow> event \<Rightarrow> 'o state" where
  "step update s (Frame t) = tick update t s"
| "step update s (Resize win) = resize win s"

definition run :: "'o orbitUpdate \<Rightarrow> 'o state \<Rightarrow> event list \<Rightarrow> 'o state" where
  "run update s evs = foldl (step update) s evs"

definition session ::
  "engine \<Rightarrow> 'o orbitUpdate \<Rightarrow> window \<Rightarrow> loader \<Rightarrow> rng \<Rightarrow> 'o \<Rightarrow> real \<Rightarrow> event list \<Rightarrow> error + 'o state" where
  "session E update win l g o0 t0 evs =
     (case compose E win l g o0 of
        Inl e \<Rightarrow> Inl e
      | Inr s \<Rightarrow> Inr (run update (tick update t0 s) evs))"

text \<open>
  Inputs for the examples: a loader that returns a handle for every path, and controls
  that stand still.
\<close>

definition loadAll :: loader where
  "loadAll p = Inr \<lparr> url = p, colorSpace = NoColorSpace \<rparr>"

text \<open>
  Modelled from the spec: \<^verbatim>\<open>THREE.TextureLoader.load\<close>, which is code of
  the three.js library and not of the script, on a host where the files in
  \<open>missing\<close> do not exist. Section 4.1 of the spec says of the load that it
  issues an asynchronous fetch, that the caller does not block on completion, and that
  the returned handle is usable immediately as a placeholder. A file that is missing is
  found by the fetch, after the call has returned, and the script passes no error
  callback. So the call returns the same handle whether the file exists or not.
\<close>

definition threeLoader :: "string list \<Rightarrow> loader" where
  "threeLoader missing p = Inr \<lparr> url = p, colorSpace = NoColorSpace \<rparr>"

definition stillControls :: "unit orbitUpdate" where
  "stillControls c p = ((), p)"

text \<open>Two windows for the examples.\<close>

definition exampleWindow :: window where
  "exampleWindow = \<lparr> innerWidth = 800, innerHeight = 600, devicePixelRatio = 3 \<rparr>"

definition resizedWindow :: window where
  "resizedWindow = \<lparr> innerWidth = 1024, innerHeight = 768, devicePixelRatio = 1 \<rparr>"

section \<open>Lemmas about rounding\<close>

subsection \<open>Rounding to an integer and to a format\<close>

lemma roundEven_err: "\<bar>of_int (roundEven q) - q\<bar> \<le> 1/2"
  unfolding roundEven_def Let_def by (auto simp: abs_if) linarith+

lemma roundEven_of_int [simp]: "roundEven (of_int k) = k"
  by (simp add: roundEven_def)

lemma roundEven_nearest: "\<bar>of_int (roundEven q) - q\<bar> \<le> \<bar>of_int j - q\<bar>"
proof (cases "j = roundEven q")
  case True then show ?thesis by simp
next
  case False
  then have "\<bar>j - roundEven q\<bar> \<ge> 1" by linarith
  then have "\<bar>(of_int j :: real) - of_int (roundEven q)\<bar> \<ge> 1"
    by (metis of_int_1 of_int_abs of_int_diff of_int_le_iff)
  with roundEven_err [of q] show ?thesis by linarith
qed

lemma powr2_int: "(2::real) powr (of_int k) = 2 powi k"
  by (simp add: powr_real_of_int')

lemma powr2_int1: "(2::real) powr (of_int k + 1) = 2 powi (k + 1)"
  using powr2_int [of "k + 1"] by simp

lemma abs_lt_pow2:
  assumes "x \<noteq> 0"
  shows "2 powi \<lfloor>log 2 \<bar>x\<bar>\<rfloor> \<le> \<bar>x\<bar>" and "\<bar>x\<bar> < 2 powi (\<lfloor>log 2 \<bar>x\<bar>\<rfloor> + 1)"
proof -
  have p: "0 < \<bar>x\<bar>" using assms by simp
  have "\<lfloor>log 2 \<bar>x\<bar>\<rfloor> = \<lfloor>log 2 \<bar>x\<bar>\<rfloor>" ..
  then have "2 powr (of_int \<lfloor>log 2 \<bar>x\<bar>\<rfloor>) \<le> \<bar>x\<bar> \<and> \<bar>x\<bar> < 2 powr (of_int (\<lfloor>log 2 \<bar>x\<bar>\<rfloor> + 1))"
    using floor_log_eq_powr_iff [OF p, of 2 "\<lfloor>log 2 \<bar>x\<bar>\<rfloor>"] by simp
  then show "2 powi \<lfloor>log 2 \<bar>x\<bar>\<rfloor> \<le> \<bar>x\<bar>" and "\<bar>x\<bar> < 2 powi (\<lfloor>log 2 \<bar>x\<bar>\<rfloor> + 1)"
    by (simp_all add: powr2_int powr2_int1)
qed

lemma floor_log2_eqI:
  assumes "2 powi k \<le> \<bar>x\<bar>" and "\<bar>x\<bar> < 2 powi (k + 1)"
  shows "\<lfloor>log 2 \<bar>x\<bar>\<rfloor> = k"
proof -
  have "0 < (2::real) powi k" by simp
  then have p: "0 < \<bar>x\<bar>" using assms(1) by linarith
  show ?thesis
    using floor_log_eq_powr_iff [OF p, of 2 k] assms by (simp add: powr2_int powr2_int1)
qed

lemma pow2_mono: "a \<le> b \<Longrightarrow> (2::real) powi a \<le> 2 powi b"
  by (rule power_int_increasing) simp_all

lemma pow2_strict_mono: "a < b \<Longrightarrow> (2::real) powi a < 2 powi b"
  by (rule power_int_strict_increasing) simp_all

lemma pow2_add: "(2::real) powi (a + b) = 2 powi a * 2 powi b"
  by (simp add: power_int_add)

lemma pow2_nat: "(2::real) powi (int n) = 2 ^ n"
  by simp

lemma ulpExp_ge: "emin \<le> ulpExp p emin x"
  by (simp add: ulpExp_def)

lemma ulpExp_upper:
  assumes "x \<noteq> 0"
  shows "\<bar>x\<bar> < 2 powi (ulpExp p emin x + int p)"
proof -
  have "\<lfloor>log 2 \<bar>x\<bar>\<rfloor> + 1 \<le> ulpExp p emin x + int p" by (simp add: ulpExp_def)
  then have "(2::real) powi (\<lfloor>log 2 \<bar>x\<bar>\<rfloor> + 1) \<le> 2 powi (ulpExp p emin x + int p)"
    by (rule pow2_mono)
  with abs_lt_pow2(2) [OF assms] show ?thesis by linarith
qed

lemma ulpExp_lower:
  assumes "x \<noteq> 0" and "emin < ulpExp p emin x"
  shows "2 powi (ulpExp p emin x + int p - 1) \<le> \<bar>x\<bar>"
proof -
  have "ulpExp p emin x = \<lfloor>log 2 \<bar>x\<bar>\<rfloor> - (int p - 1)" using assms(2) by (simp add: ulpExp_def max_def split: if_splits)
  then have "ulpExp p emin x + int p - 1 = \<lfloor>log 2 \<bar>x\<bar>\<rfloor>" by simp
  with abs_lt_pow2(1) [OF assms(1)] show ?thesis by simp
qed

lemma roundTo_err: "\<bar>roundTo p emin x - x\<bar> \<le> 2 powi (ulpExp p emin x) / 2"
proof (cases "x = 0")
  case True then show ?thesis by (simp add: roundTo_def)
next
  case False
  let ?u = "(2::real) powi (ulpExp p emin x)"
  have u: "0 < ?u" by simp
  have "roundTo p emin x - x = (of_int (roundEven (x / ?u)) - x / ?u) * ?u"
    using False by (simp add: roundTo_def left_diff_distrib)
  then have "\<bar>roundTo p emin x - x\<bar> = \<bar>of_int (roundEven (x / ?u)) - x / ?u\<bar> * ?u"
    using u by (simp add: abs_mult)
  also have "\<dots> \<le> (1/2) * ?u"
    using roundEven_err [of "x / ?u"] u by (intro mult_right_mono) simp_all
  finally show ?thesis by simp
qed

lemma roundTo_of_multiple:
  assumes "x = of_int K * 2 powi (ulpExp p emin x)"
  shows "roundTo p emin x = x"
proof (cases "x = 0")
  case True then show ?thesis by (simp add: roundTo_def)
next
  case False
  have "x / 2 powi (ulpExp p emin x) = of_int K"
    using assms by (metis nonzero_mult_div_cancel_right power_int_eq_0_iff zero_neq_numeral)
  then show ?thesis using False assms by (simp add: roundTo_def)
qed

lemma roundTo_fix:
  assumes x: "x = of_int K * 2 powi k" and k: "emin \<le> k" and K: "\<bar>K\<bar> < 2 ^ p"
  shows "roundTo p emin x = x"
proof (cases "x = 0")
  case True then show ?thesis by (simp add: roundTo_def)
next
  case False
  let ?e = "ulpExp p emin x"
  have "?e \<le> k"
  proof (rule ccontr)
    assume "\<not> ?e \<le> k"
    then have lt: "k < ?e" by simp
    then have "emin < ?e" using k by simp
    from ulpExp_lower [OF False this] have "2 powi (?e + int p - 1) \<le> \<bar>x\<bar>" .
    moreover have "(2::real) powi (k + int p) \<le> 2 powi (?e + int p - 1)"
      using lt by (intro pow2_mono) simp
    moreover have "\<bar>x\<bar> < 2 powi (k + int p)"
    proof -
      have "\<bar>x\<bar> = \<bar>of_int K\<bar> * 2 powi k" by (simp add: x abs_mult)
      also have "\<dots> < 2 ^ p * 2 powi k"
      proof -
        have "real_of_int \<bar>K\<bar> < real_of_int (2 ^ p)" using K by (simp only: of_int_less_iff)
        then have "\<bar>real_of_int K\<bar> < 2 ^ p" by simp
        then show ?thesis by (intro mult_strict_right_mono) simp_all
      qed
      finally show ?thesis by (simp add: pow2_add mult.commute)
    qed
    ultimately show False by linarith
  qed
  then obtain d where d: "k = ?e + int d" by (metis zle_iff_zadd)
  have "x = of_int (K * 2 ^ d) * 2 powi ?e"
    by (subst x, subst d) (simp add: pow2_add mult.assoc mult.commute)
  then show ?thesis by (rule roundTo_of_multiple)
qed

lemma roundTo_0 [simp]: "roundTo p emin 0 = 0"
  by (simp add: roundTo_def)

lemma roundTo_nz: "x \<noteq> 0 \<Longrightarrow>
  roundTo p emin x = of_int (roundEven (x / 2 powi ulpExp p emin x)) * 2 powi ulpExp p emin x"
  by (simp add: roundTo_def)

lemma scaled_abs:
  "\<bar>of_int J * 2 powi e - (x::real)\<bar> = \<bar>of_int J - x / 2 powi e\<bar> * 2 powi e"
proof -
  have "of_int J * 2 powi e - x = (of_int J - x / 2 powi e) * 2 powi e"
    by (simp add: left_diff_distrib)
  then show ?thesis by (simp add: abs_mult)
qed

lemma roundTo_nearest_multiple:
  "\<bar>roundTo p emin x - x\<bar> \<le> \<bar>of_int J * 2 powi (ulpExp p emin x) - x\<bar>"
proof (cases "x = 0")
  case True then show ?thesis by simp
next
  case False
  show ?thesis
    unfolding roundTo_nz [OF False] scaled_abs
    using roundEven_nearest [of "x / 2 powi (ulpExp p emin x)" J]
    by (intro mult_right_mono) simp_all
qed

lemma roundEven_bound:
  assumes "\<bar>q\<bar> < 2 ^ p"
  shows "\<bar>roundEven q\<bar> \<le> 2 ^ p"
proof -
  have "\<bar>of_int (roundEven q) - q\<bar> \<le> \<bar>of_int (2 ^ p) - q\<bar>"
    and "\<bar>of_int (roundEven q) - q\<bar> \<le> \<bar>of_int (- (2 ^ p)) - q\<bar>"
    by (rule roundEven_nearest)+
  moreover have b: "q < 2 ^ p" "- (2 ^ p) < q" using assms by linarith+
  then have "\<bar>real_of_int (2 ^ p) - q\<bar> = real_of_int (2 ^ p) - q"
    and "\<bar>real_of_int (- (2 ^ p)) - q\<bar> = q - real_of_int (- (2 ^ p))"
    by simp_all
  ultimately have "real_of_int (roundEven q) \<le> real_of_int (2 ^ p)"
    and "real_of_int (- (2 ^ p)) \<le> real_of_int (roundEven q)"
    by linarith+
  then have "roundEven q \<le> 2 ^ p" and "- (2 ^ p) \<le> roundEven q"
    by (simp_all only: of_int_le_iff)
  then show ?thesis by simp
qed

lemma roundTo_idem:
  assumes "0 < p"
  shows "roundTo p emin (roundTo p emin x) = roundTo p emin x"
proof (cases "x = 0")
  case True then show ?thesis by simp
next
  case False
  let ?e = "ulpExp p emin x"
  let ?K = "roundEven (x / 2 powi ?e)"
  have y: "roundTo p emin x = of_int ?K * 2 powi ?e" by (rule roundTo_nz [OF False])
  have "\<bar>x / 2 powi ?e\<bar> < 2 ^ p"
  proof -
    have "\<bar>x\<bar> < 2 powi ?e * 2 ^ p" using ulpExp_upper [OF False, of p emin] by (simp add: pow2_add)
    then show ?thesis by (simp add: abs_divide pos_divide_less_eq mult.commute)
  qed
  then have K: "\<bar>?K\<bar> \<le> 2 ^ p" by (rule roundEven_bound)
  show ?thesis
  proof (cases "\<bar>?K\<bar> < 2 ^ p")
    case True
    show ?thesis by (rule roundTo_fix [OF y ulpExp_ge True])
  next
    case False
    with K have eq: "\<bar>?K\<bar> = 2 ^ p" by simp
    obtain n where n: "p = Suc n" using assms by (cases p) simp_all
    define K' where "K' = (if 0 \<le> ?K then (2::int) ^ n else - (2 ^ n))"
    have KK: "?K = K' * 2" using eq by (auto simp: K'_def n abs_if split: if_splits)
    have "roundTo p emin x = of_int K' * 2 powi (?e + 1)"
      by (simp add: y KK pow2_add mult.assoc mult.commute)
    moreover have "emin \<le> ?e + 1" using ulpExp_ge [of emin p x] by simp
    moreover have "\<bar>K'\<bar> < 2 ^ p" by (simp add: K'_def n)
    ultimately show ?thesis by (rule roundTo_fix)
  qed
qed

lemma roundTo_nearest:
  assumes g: "roundTo p emin g = g" and p: "0 < p"
  shows "\<bar>roundTo p emin x - x\<bar> \<le> \<bar>g - x\<bar>"
proof (cases "x = 0 \<or> g = 0")
  case True
  then show ?thesis
  proof
    assume "x = 0" then show ?thesis by simp
  next
    assume "g = 0"
    then show ?thesis using roundTo_nearest_multiple [of p emin x 0] by simp
  qed
next
  case False
  then have x: "x \<noteq> 0" and g0: "g \<noteq> 0" by simp_all
  let ?e = "ulpExp p emin x" and ?eg = "ulpExp p emin g"
  let ?Kg = "roundEven (g / 2 powi ?eg)"
  have gK: "g = of_int ?Kg * 2 powi ?eg" using g roundTo_nz [OF g0, of p emin] by simp
  show ?thesis
  proof (cases "?e \<le> ?eg")
    case True
    then obtain d where d: "?eg = ?e + int d" by (metis zle_iff_zadd)
    have "g = of_int (?Kg * 2 ^ d) * 2 powi ?e"
      by (subst gK, subst d) (simp add: pow2_add mult.assoc mult.commute)
    then show ?thesis using roundTo_nearest_multiple [of p emin x "?Kg * 2 ^ d"] by simp
  next
    case False
    then have lt: "?eg < ?e" by simp
    then have "emin < ?e" using ulpExp_ge [of emin p g] by linarith
    from ulpExp_lower [OF x this] have lo: "2 powi (?e + int p - 1) \<le> \<bar>x\<bar>" .
    have "\<bar>g\<bar> < 2 powi (?eg + int p)" by (rule ulpExp_upper [OF g0])
    moreover have "(2::real) powi (?eg + int p) \<le> 2 powi (?e + int p - 1)"
      using lt by (intro pow2_mono) simp
    ultimately have gB: "\<bar>g\<bar> < 2 powi (?e + int p - 1)" by linarith
    from p obtain n where n: "p = Suc n" by (cases p) simp_all
    define J :: int where "J = (if 0 \<le> x then 2 ^ n else - (2 ^ n))"
    have JB: "real_of_int J * 2 powi ?e =
        (if 0 \<le> x then 2 powi (?e + int p - 1) else - (2 powi (?e + int p - 1)))"
      by (simp add: J_def n pow2_add mult.commute)
    have "\<bar>of_int J * 2 powi ?e - x\<bar> = \<bar>x\<bar> - 2 powi (?e + int p - 1)"
      unfolding JB using lo by (auto simp: abs_if)
    also have "\<dots> \<le> \<bar>g - x\<bar>" using gB by linarith
    finally show ?thesis using roundTo_nearest_multiple [of p emin x J] by linarith
  qed
qed

lemma roundTo_mono:
  assumes p: "0 < p" and le: "x \<le> y"
  shows "roundTo p emin x \<le> roundTo p emin y"
proof (rule ccontr)
  assume "\<not> roundTo p emin x \<le> roundTo p emin y"
  then have lt: "roundTo p emin y < roundTo p emin x" by simp
  have "\<bar>roundTo p emin x - x\<bar> \<le> \<bar>roundTo p emin y - x\<bar>"
    by (rule roundTo_nearest [OF roundTo_idem [OF p] p])
  moreover have "\<bar>roundTo p emin y - y\<bar> \<le> \<bar>roundTo p emin x - y\<bar>"
    by (rule roundTo_nearest [OF roundTo_idem [OF p] p])
  ultimately have "x = y" using lt le by linarith
  with lt show False by simp
qed

lemma roundTo_rel:
  assumes p: "0 < p"
  shows "\<bar>roundTo p emin x - x\<bar> \<le> \<bar>x\<bar> / 2 ^ p + 2 powi (emin - 1)"
proof (cases "x = 0")
  case True then show ?thesis by simp
next
  case False
  let ?e = "ulpExp p emin x"
  have half: "(2::real) powi k / 2 = 2 powi (k - 1)" for k
    by (simp add: power_int_diff)
  have e: "\<bar>roundTo p emin x - x\<bar> \<le> 2 powi (?e - 1)"
    using roundTo_err [of p emin x] by (simp add: half)
  show ?thesis
  proof (cases "?e = emin")
    case True
    with e have "\<bar>roundTo p emin x - x\<bar> \<le> 2 powi (emin - 1)" by simp
    moreover have "0 \<le> \<bar>x\<bar> / 2 ^ p" by simp
    ultimately show ?thesis by linarith
  next
    case F: False
    then have "emin < ?e" using ulpExp_ge [of emin p x] by linarith
    from ulpExp_lower [OF False this] have "2 powi (?e + int p - 1) \<le> \<bar>x\<bar>" .
    moreover have "(2::real) powi (?e + int p - 1) = 2 powi (?e - 1) * 2 ^ p"
      using pow2_add [of "?e - 1" "int p"] by (simp add: algebra_simps)
    ultimately have "2 powi (?e - 1) \<le> \<bar>x\<bar> / 2 ^ p"
      by (simp add: pos_le_divide_eq)
    moreover have "0 \<le> (2::real) powi (emin - 1)" by simp
    ultimately show ?thesis using e by linarith
  qed
qed

lemma roundEven_eqI:
  assumes "of_int n - 1/2 < q" and "q < of_int n + 1/2"
  shows "roundEven q = n"
proof -
  have "\<bar>real_of_int (roundEven q) - q\<bar> \<le> 1/2" by (rule roundEven_err)
  with assms have "\<bar>real_of_int (roundEven q) - real_of_int n\<bar> < 1" by linarith
  then have "\<bar>real_of_int (roundEven q - n)\<bar> < 1" by simp
  then have "\<bar>roundEven q - n\<bar> < 1" by (metis of_int_1 of_int_abs of_int_less_iff)
  then show ?thesis by simp
qed

lemma roundEven_tie: "roundEven (of_int n + 1/2) = (if even n then n else n + 1)"
proof -
  have "\<lfloor>real_of_int n + 1/2\<rfloor> = n" by linarith
  then show ?thesis by (simp add: roundEven_def)
qed

lemma ulpExp_eqI:
  assumes "2 powi k \<le> \<bar>x\<bar>" and "\<bar>x\<bar> < 2 powi (k + 1)"
  shows "ulpExp p emin x = max (k - (int p - 1)) emin"
  using floor_log2_eqI [OF assms] by (simp add: ulpExp_def)

lemma roundTo_eqI:
  assumes "2 powi k \<le> \<bar>x\<bar>" and "\<bar>x\<bar> < 2 powi (k + 1)"
    and "e = max (k - (int p - 1)) emin"
    and "roundEven (x / 2 powi e) = K"
  shows "roundTo p emin x = of_int K * 2 powi e"
proof -
  have "0 < (2::real) powi k" by simp
  with assms(1) have "0 < \<bar>x\<bar>" by linarith
  then have "x \<noteq> 0" by simp
  then show ?thesis
    using ulpExp_eqI [OF assms(1,2), of p emin] assms(3,4) by (simp add: roundTo_nz)
qed

subsection \<open>Binary64 and binary32\<close>

lemma maxDouble_ge: "2 ^ 1023 \<le> maxDouble"
proof -
  have "(2::real) ^ 1023 = 2 ^ 52 * 2 ^ 971" by (simp add: power_add [symmetric])
  also have "\<dots> \<le> (2 ^ 53 - 1) * 2 ^ 971" by (intro mult_right_mono) simp_all
  finally show ?thesis by (simp add: maxDouble_def)
qed

lemma maxFloat_ge: "2 ^ 127 \<le> maxFloat"
proof -
  have "(2::real) ^ 127 = 2 ^ 23 * 2 ^ 104" by (simp add: power_add [symmetric])
  also have "\<dots> \<le> (2 ^ 24 - 1) * 2 ^ 104" by (intro mult_right_mono) simp_all
  finally show ?thesis by (simp add: maxFloat_def)
qed

lemma eta64: "(2::real) powi (- 1074 - 1) \<le> 1 / 2 ^ 200"
proof -
  have "(2::real) powi (- 1075) \<le> 2 powi (- 200)" by (rule pow2_mono) simp
  then show ?thesis by (simp add: power_int_minus field_simps)
qed

lemma eta32: "(2::real) powi (- 149 - 1) = 1 / 2 ^ 150"
  by (simp add: power_int_minus field_simps)

lemma rnd64_bound:
  assumes "\<bar>x\<bar> \<le> 2 ^ 200"
  shows "\<exists>y. rnd64 x = Num y \<and> \<bar>y - x\<bar> \<le> \<bar>x\<bar> / 2 ^ 53 + 1 / 2 ^ 200"
proof -
  let ?y = "roundTo 53 (- 1074) x"
  have e: "\<bar>?y - x\<bar> \<le> \<bar>x\<bar> / 2 ^ 53 + 1 / 2 ^ 200"
    using roundTo_rel [of 53 "- 1074" x] eta64 by simp
  have "\<bar>x\<bar> / 2 ^ 53 \<le> \<bar>x\<bar>" by (simp add: field_simps)
  moreover have "(1::real) / 2 ^ 200 \<le> 1" by simp
  ultimately have "\<bar>?y - x\<bar> \<le> \<bar>x\<bar> + 1" using e by linarith
  then have "\<bar>?y\<bar> \<le> \<bar>x\<bar> + \<bar>x\<bar> + 1" by linarith
  then have "\<bar>?y\<bar> \<le> 2 ^ 200 + 2 ^ 200 + 1" using assms by linarith
  also have "\<dots> \<le> (2::real) ^ 1023"
  proof -
    have "(2::real) ^ 200 + 2 ^ 200 + 1 \<le> 2 ^ 202" by simp
    also have "\<dots> \<le> (2::real) ^ 1023" by (rule power_increasing) simp_all
    finally show ?thesis .
  qed
  finally have "\<bar>?y\<bar> \<le> maxDouble" using maxDouble_ge by linarith
  then have "rnd64 x = Num ?y" by (simp add: rnd64_def)
  with e show ?thesis by blast
qed

lemma rnd32_bound:
  assumes "\<bar>x\<bar> \<le> 2 ^ 120"
  shows "\<exists>y. rnd32 x = Num y \<and> \<bar>y - x\<bar> \<le> \<bar>x\<bar> / 2 ^ 24 + 1 / 2 ^ 150"
proof -
  let ?y = "roundTo 24 (- 149) x"
  have e: "\<bar>?y - x\<bar> \<le> \<bar>x\<bar> / 2 ^ 24 + 1 / 2 ^ 150"
    using roundTo_rel [of 24 "- 149" x] eta32 by simp
  have "\<bar>x\<bar> / 2 ^ 24 \<le> \<bar>x\<bar>" by (simp add: field_simps)
  moreover have "(1::real) / 2 ^ 150 \<le> 1" by simp
  ultimately have "\<bar>?y - x\<bar> \<le> \<bar>x\<bar> + 1" using e by linarith
  then have "\<bar>?y\<bar> \<le> \<bar>x\<bar> + \<bar>x\<bar> + 1" by linarith
  then have "\<bar>?y\<bar> \<le> 2 ^ 120 + 2 ^ 120 + 1" using assms by linarith
  also have "\<dots> \<le> (2::real) ^ 127"
  proof -
    have "(2::real) ^ 120 + 2 ^ 120 + 1 \<le> 2 ^ 122" by simp
    also have "\<dots> \<le> (2::real) ^ 127" by (rule power_increasing) simp_all
    finally show ?thesis .
  qed
  finally have "\<bar>?y\<bar> \<le> maxFloat" using maxFloat_ge by linarith
  then have "rnd32 x = Num ?y" by (simp add: rnd32_def)
  with e show ?thesis by blast
qed

lemma isDouble_round: "isDouble x \<Longrightarrow> roundTo 53 (- 1074) x = x"
  by (simp add: isDouble_def rnd64_def Let_def split: if_splits)

lemma isDouble_I:
  assumes "x = of_int K * 2 powi k" and "- 1074 \<le> k" and "\<bar>K\<bar> < 2 ^ 53" and "\<bar>x\<bar> \<le> 2 ^ 1023"
  shows "isDouble x"
proof -
  have "roundTo 53 (- 1074) x = x" by (rule roundTo_fix [OF assms(1,2,3)])
  moreover have "\<bar>x\<bar> \<le> maxDouble" using assms(4) maxDouble_ge by linarith
  ultimately show ?thesis by (simp add: isDouble_def rnd64_def)
qed

lemma isDouble_int:
  assumes "\<bar>K\<bar> < 2 ^ 53"
  shows "isDouble (of_int K)"
proof (rule isDouble_I [where K = K and k = 0])
  have "real_of_int \<bar>K\<bar> < real_of_int (2 ^ 53)" using assms by (simp only: of_int_less_iff)
  then have "\<bar>real_of_int K\<bar> \<le> 2 ^ 53" by simp
  also have "\<dots> \<le> (2::real) ^ 1023" by (rule power_increasing) simp_all
  finally show "\<bar>real_of_int K\<bar> \<le> 2 ^ 1023" .
qed (use assms in simp_all)

lemma isDouble_numerals: "isDouble 0" "isDouble 1" "isDouble 2" "isDouble 5" "isDouble 600" "isDouble 900" "isDouble 1500"
  using isDouble_int [of 0] isDouble_int [of 1] isDouble_int [of 2] isDouble_int [of 5]
    isDouble_int [of 600] isDouble_int [of 900] isDouble_int [of 1500]
  by simp_all

lemma rnd64_double: "isDouble x \<Longrightarrow> rnd64 x = Num x"
  by (simp add: isDouble_def)

lemma rnd64_between:
  assumes lo: "isDouble a" and hi: "isDouble b" and "a \<le> x" and "x \<le> b"
  shows "\<exists>y. rnd64 x = Num y \<and> a \<le> y \<and> y \<le> b"
proof -
  let ?y = "roundTo 53 (- 1074) x"
  have "roundTo 53 (- 1074) a \<le> ?y" and "?y \<le> roundTo 53 (- 1074) b"
    using assms(3,4) by (simp_all add: roundTo_mono)
  then have ab: "a \<le> ?y" "?y \<le> b" using isDouble_round [OF lo] isDouble_round [OF hi] by simp_all
  have "\<bar>a\<bar> \<le> maxDouble" and "\<bar>b\<bar> \<le> maxDouble"
    using lo hi by (simp_all add: isDouble_def rnd64_def Let_def split: if_splits)
  with ab have "\<bar>?y\<bar> \<le> maxDouble" by linarith
  then have "rnd64 x = Num ?y" by (simp add: rnd64_def)
  with ab show ?thesis by blast
qed

lemma rnd64_eqI:
  assumes "roundTo 53 (- 1074) x = y" and "\<bar>y\<bar> \<le> 2 ^ 1023"
  shows "rnd64 x = Num y"
proof -
  have "\<bar>y\<bar> \<le> maxDouble" using assms(2) maxDouble_ge by linarith
  then show ?thesis using assms(1) by (simp add: rnd64_def)
qed

lemma rnd32_eqI:
  assumes "roundTo 24 (- 149) x = y" and "\<bar>y\<bar> \<le> 2 ^ 127"
  shows "rnd32 x = Num y"
proof -
  have "\<bar>y\<bar> \<le> maxFloat" using assms(2) maxFloat_ge by linarith
  then show ?thesis using assms(1) by (simp add: rnd32_def)
qed

lemma small_le_pow: "\<bar>y\<bar> \<le> 2 ^ 11 \<Longrightarrow> \<bar>y::real\<bar> \<le> 2 ^ 1023" "\<bar>y\<bar> \<le> 2 ^ 11 \<Longrightarrow> \<bar>y::real\<bar> \<le> 2 ^ 127"
proof -
  have "(2::real) ^ 11 \<le> 2 ^ 1023" "(2::real) ^ 11 \<le> 2 ^ 127" by (rule power_increasing; simp)+
  then show "\<bar>y\<bar> \<le> 2 ^ 11 \<Longrightarrow> \<bar>y::real\<bar> \<le> 2 ^ 1023" "\<bar>y\<bar> \<le> 2 ^ 11 \<Longrightarrow> \<bar>y::real\<bar> \<le> 2 ^ 127"
    by linarith+
qed

section \<open>Lemmas about the star field generator\<close>

subsection \<open>The buffer after the loop\<close>

lemma starBody_length: "length (fst (starBody E rad dep i g ps)) = length ps"
  by (simp add: starBody_def Math_random_def Let_def)

lemma starBody_rng: "snd (starBody E rad dep i g ps) = (\<lambda>k. g (k + 3))"
  by (simp add: starBody_def Math_random_def Let_def eval_nat_numeral)

lemma starBody_other:
  "j < i * 3 \<or> i * 3 + 3 \<le> j \<Longrightarrow> fst (starBody E rad dep i g ps) ! j = ps ! j"
  by (auto simp: starBody_def Math_random_def Let_def)

lemma starBody_point:
  assumes "i * 3 + 2 < length ps"
  shows "(fst (starBody E rad dep i g ps) ! (i * 3),
          fst (starBody E rad dep i g ps) ! (i * 3 + 1),
          fst (starBody E rad dep i g ps) ! (i * 3 + 2))
         = starPoint E (add64 (Num rad) (mul64 (Num (g 0)) (Num dep))) (g 1) (g 2)"
  using assms
  by (simp add: starBody_def Math_random_def Let_def starPoint_def eval_nat_numeral)

lemma starLoop_length: "length (fst (starLoop E cnt rad dep i g ps)) = length ps"
proof (induction E cnt rad dep i g ps rule: starLoop.induct)
  case (1 E cnt rad dep i g ps)
  show ?case
  proof (cases "int i < cnt")
    case True
    obtain ps' g' where b: "starBody E rad dep i g ps = (ps', g')"
      by (cases "starBody E rad dep i g ps")
    have "length (fst (starLoop E cnt rad dep (i + 1) g' ps')) = length ps'"
      using 1 [OF True b [symmetric] refl] .
    moreover have "length ps' = length ps" using starBody_length [of E rad dep i g ps] b by simp
    ultimately show ?thesis using True b by (subst starLoop.simps) simp
  next
    case False
    then show ?thesis by (subst starLoop.simps) simp
  qed
qed

lemma starLoop_below:
  "j < i * 3 \<Longrightarrow> fst (starLoop E cnt rad dep i g ps) ! j = ps ! j"
proof (induction E cnt rad dep i g ps rule: starLoop.induct)
  case (1 E cnt rad dep i g ps)
  show ?case
  proof (cases "int i < cnt")
    case True
    obtain ps' g' where b: "starBody E rad dep i g ps = (ps', g')"
      by (cases "starBody E rad dep i g ps")
    have "fst (starLoop E cnt rad dep (i + 1) g' ps') ! j = ps' ! j"
      using 1(1) [OF True b [symmetric] refl] 1(2) by simp
    moreover have "ps' ! j = ps ! j" using starBody_other [of j i E rad dep g ps] b 1(2) by simp
    ultimately show ?thesis using True b by (subst starLoop.simps) simp
  next
    case False
    then show ?thesis by (subst starLoop.simps) simp
  qed
qed

lemma starLoop_point:
  "i \<le> k \<Longrightarrow> int k < cnt \<Longrightarrow> k * 3 + 2 < length ps \<Longrightarrow>
   (fst (starLoop E cnt rad dep i g ps) ! (k * 3),
    fst (starLoop E cnt rad dep i g ps) ! (k * 3 + 1),
    fst (starLoop E cnt rad dep i g ps) ! (k * 3 + 2))
   = starPoint E (add64 (Num rad) (mul64 (Num (g (3 * (k - i)))) (Num dep)))
       (g (3 * (k - i) + 1)) (g (3 * (k - i) + 2))"
proof (induction E cnt rad dep i g ps rule: starLoop.induct)
  case (1 E cnt rad dep i g ps)
  have lt: "int i < cnt" using 1(2,3) by simp
  obtain ps' g' where b: "starBody E rad dep i g ps = (ps', g')"
    by (cases "starBody E rad dep i g ps")
  have g': "g' = (\<lambda>m. g (m + 3))" using starBody_rng [of E rad dep i g ps] b by simp
  have len: "length ps' = length ps" using starBody_length [of E rad dep i g ps] b by simp
  have unfold: "starLoop E cnt rad dep i g ps = starLoop E cnt rad dep (i + 1) g' ps'"
    using lt b by (subst starLoop.simps) simp
  show ?case
  proof (cases "i = k")
    case True
    have "fst (starLoop E cnt rad dep (i + 1) g' ps') ! (k * 3) = ps' ! (k * 3)"
      and "fst (starLoop E cnt rad dep (i + 1) g' ps') ! (k * 3 + 1) = ps' ! (k * 3 + 1)"
      and "fst (starLoop E cnt rad dep (i + 1) g' ps') ! (k * 3 + 2) = ps' ! (k * 3 + 2)"
      using True by (simp_all add: starLoop_below)
    moreover have "(ps' ! (k * 3), ps' ! (k * 3 + 1), ps' ! (k * 3 + 2))
        = starPoint E (add64 (Num rad) (mul64 (Num (g 0)) (Num dep))) (g 1) (g 2)"
      using starBody_point [of i ps E rad dep g] b 1(4) True by simp
    ultimately show ?thesis using True unfold by (simp add: numeral_2_eq_2)
  next
    case False
    then have le: "i + 1 \<le> k" using 1(2) by simp
    have "3 * (k - (i + 1)) + 3 = 3 * (k - i)" using le by simp
    then have shift: "\<And>d. g' (3 * (k - (i + 1)) + d) = g (3 * (k - i) + d)"
      by (simp add: g' add.commute add.left_commute)
    have "(fst (starLoop E cnt rad dep (i + 1) g' ps') ! (k * 3),
           fst (starLoop E cnt rad dep (i + 1) g' ps') ! (k * 3 + 1),
           fst (starLoop E cnt rad dep (i + 1) g' ps') ! (k * 3 + 2))
        = starPoint E (add64 (Num rad) (mul64 (Num (g' (3 * (k - (i + 1))))) (Num dep)))
            (g' (3 * (k - (i + 1)) + 1)) (g' (3 * (k - (i + 1)) + 2))"
      using 1(1) [OF lt b [symmetric] refl le 1(3)] 1(4) len by simp
    then show ?thesis using unfold shift [of 0] shift [of 1] shift [of 2] by simp
  qed
qed

lemma makeStarField_Inr:
  assumes "0 \<le> count os" and "count os * 3 \<le> int (maxArrayLength E)"
  shows "makeStarField E os g =
     Inr \<lparr> positions = fst (starLoop E (count os) (radius os) (depth os) 0 g
                                (replicate (nat (count os * 3)) (Num 0))),
            itemSize = 3,
            points_material = \<lparr> pm_color = 0xffffff, pm_size = 1.2, pm_sizeAttenuation = True,
                       pm_transparent = True, pm_opacity = 0.9, pm_depthWrite = False \<rparr> \<rparr>"
  using assms by (simp add: makeStarField_def Float32Array_def split_def Let_def)

lemma makeStarField_length:
  assumes "makeStarField E os g = Inr p"
  shows "length (positions p) = 3 * nat (count os)" and "itemSize p = 3" and "0 \<le> count os"
    and "count os * 3 \<le> int (maxArrayLength E)"
proof -
  show c: "0 \<le> count os" and m: "count os * 3 \<le> int (maxArrayLength E)" using assms
    by (simp_all add: makeStarField_def Float32Array_def split: if_splits)
  from makeStarField_Inr [OF c m, of g] assms
  have p: "p = \<lparr> positions = fst (starLoop E (count os) (radius os) (depth os) 0 g
                                (replicate (nat (count os * 3)) (Num 0))),
             itemSize = 3,
             points_material = \<lparr> pm_color = 0xffffff, pm_size = 1.2, pm_sizeAttenuation = True,
                       pm_transparent = True, pm_opacity = 0.9, pm_depthWrite = False \<rparr> \<rparr>"
    by simp
  show "itemSize p = 3" by (subst p) simp
  have "length (positions p) = nat (count os * 3)"
    by (subst p) (simp add: starLoop_length)
  then show "length (positions p) = 3 * nat (count os)" using c by (simp add: nat_mult_distrib)
qed

lemma makeStarField_point:
  assumes "makeStarField E os g = Inr p" and "int k < count os"
  shows "point p k = starPoint E (sampledR os g k) (g (3 * k + 1)) (g (3 * k + 2))"
proof -
  have c: "0 \<le> count os" using assms(2) by simp
  from makeStarField_Inr [OF c makeStarField_length(4) [OF assms(1)], of g] assms(1)
  have p: "positions p = fst (starLoop E (count os) (radius os) (depth os) 0 g
                                (replicate (nat (count os * 3)) (Num 0)))"
    by auto
  have "k * 3 + 2 < nat (count os * 3)" using assms(2) by auto
  then have "k * 3 + 2 < length (replicate (nat (count os * 3)) (Num 0))" by simp
  from starLoop_point [OF _ assms(2) this, of 0 E "radius os" "depth os" g]
  show ?thesis by (simp add: point_def p sampledR_def)
qed

lemma norm3_sphere: "norm3 (sphere r phi theta) = \<bar>r\<bar>"
proof -
  have alg: "\<And>A B C D :: real. (r * A * C) * (r * A * C) + (r * A * D) * (r * A * D)
        + (r * B) * (r * B) = r\<^sup>2 * (A\<^sup>2 * (C\<^sup>2 + D\<^sup>2) + B\<^sup>2)"
    by (simp add: power2_eq_square algebra_simps)
  have "(r * sin phi * cos theta) * (r * sin phi * cos theta)
        + (r * sin phi * sin theta) * (r * sin phi * sin theta)
        + (r * cos phi) * (r * cos phi)
      = r\<^sup>2 * ((sin phi)\<^sup>2 * ((cos theta)\<^sup>2 + (sin theta)\<^sup>2) + (cos phi)\<^sup>2)"
    by (rule alg)
  also have "\<dots> = r\<^sup>2" by simp
  finally show ?thesis by (simp add: norm3_def sphere_def)
qed

lemma sampledR_range:
  assumes a: "0 \<le> a" "a < 1" and rad: "isDouble rad" and dep: "isDouble dep" "0 \<le> dep"
    and S: "add64 (Num rad) (Num dep) = Num S"
  shows "\<exists>R. add64 (Num rad) (mul64 (Num a) (Num dep)) = Num R \<and> rad \<le> R \<and> R \<le> S \<and> isDouble R"
proof -
  have "0 \<le> a * dep" using a(1) dep(2) by simp
  moreover have "a * dep \<le> dep" using a dep(2) by (simp add: mult_left_le_one_le)
  ultimately obtain t where t: "rnd64 (a * dep) = Num t" "0 \<le> t" "t \<le> dep"
    using rnd64_between [OF isDouble_numerals(1) dep(1), of "a * dep"] by blast
  have Sd: "isDouble S" and Sv: "S = roundTo 53 (- 1074) (rad + dep)"
    using S roundTo_idem [of 53 "- 1074" "rad + dep"]
    by (auto simp: isDouble_def rnd64_def Let_def split: if_splits)
  have "rad + t \<le> rad + dep" using t(3) by simp
  then have "roundTo 53 (- 1074) (rad + t) \<le> S" unfolding Sv by (intro roundTo_mono) simp_all
  moreover have "rad \<le> roundTo 53 (- 1074) (rad + t)"
    using roundTo_mono [of 53 rad "rad + t" "- 1074"] t(2) isDouble_round [OF rad] by simp
  moreover have "\<bar>rad\<bar> \<le> maxDouble" "\<bar>S\<bar> \<le> maxDouble"
    using rad Sd by (simp_all add: isDouble_def rnd64_def Let_def split: if_splits)
  ultimately have in_range: "\<bar>roundTo 53 (- 1074) (rad + t)\<bar> \<le> maxDouble" by linarith
  then have r: "rnd64 (rad + t) = Num (roundTo 53 (- 1074) (rad + t))" by (simp add: rnd64_def)
  have "isDouble (roundTo 53 (- 1074) (rad + t))"
    using in_range by (simp add: isDouble_def rnd64_def roundTo_idem)
  with r t(1) \<open>roundTo 53 (- 1074) (rad + t) \<le> S\<close> \<open>rad \<le> roundTo 53 (- 1074) (rad + t)\<close>
  show ?thesis by simp
qed

subsection \<open>Two roundings worked out\<close>

lemma draw_near_one: "isDouble (1 - 1 / 2 ^ 53)" "0 \<le> (1 - 1 / 2 ^ 53 :: real)" "(1 - 1 / 2 ^ 53 :: real) < 1"
proof -
  show "isDouble (1 - 1 / 2 ^ 53)"
    by (rule isDouble_I [where K = "2 ^ 53 - 1" and k = "- 53"]) (simp_all add: power_int_minus field_simps)
qed simp_all

lemma mul_near_one: "mul64 (Num (1 - 1 / 2 ^ 53)) (Num 600) = Num (600 - 1 / 2 ^ 43)"
proof -
  have "roundTo 53 (-1074) ((1 - 1 / 2 ^ 53) * 600) = of_int (600 * 2 ^ 43 - 1) * 2 powi (-43)"
  proof (rule roundTo_eqI [where k = 9])
    show "-43 = max (9 - (int 53 - 1)) (-1074)" by simp
    show "roundEven ((1 - 1 / 2 ^ 53) * 600 / 2 powi (-43)) = 600 * 2 ^ 43 - 1"
      by (rule roundEven_eqI) (simp_all add: power_int_minus)
  qed (simp_all add: power_int_minus)
  then have v: "roundTo 53 (-1074) ((1 - 1 / 2 ^ 53) * 600) = 600 - 1 / 2 ^ 43"
    by (simp add: power_int_minus)
  have "mul64 (Num (1 - 1 / 2 ^ 53)) (Num 600) = rnd64 ((1 - 1 / 2 ^ 53) * 600)"
    by (simp only: mul64.simps)
  also have "\<dots> = Num (600 - 1 / 2 ^ 43)"
    by (rule rnd64_eqI [OF v]) (rule small_le_pow, simp)
  finally show ?thesis .
qed

lemma add_to_1500: "add64 (Num 900) (Num (600 - 1 / 2 ^ 43)) = Num 1500"
proof -
  have q: "(900 + (600 - 1 / 2 ^ 43)) / 2 powi (-42) = real_of_int (1500 * 2 ^ 42 - 1) + 1/2"
    by (simp add: power_int_minus)
  have "roundTo 53 (-1074) (900 + (600 - 1 / 2 ^ 43)) = of_int (1500 * 2 ^ 42) * 2 powi (-42)"
  proof (rule roundTo_eqI [where k = 10])
    show "-42 = max (10 - (int 53 - 1)) (-1074)" by simp
    show "roundEven ((900 + (600 - 1 / 2 ^ 43)) / 2 powi (-42)) = 1500 * 2 ^ 42"
      unfolding q roundEven_tie by simp
  qed (simp_all add: power_int_minus)
  then have v: "roundTo 53 (-1074) (900 + (600 - 1 / 2 ^ 43)) = 1500"
    by (simp add: power_int_minus)
  have "add64 (Num 900) (Num (600 - 1 / 2 ^ 43)) = rnd64 (900 + (600 - 1 / 2 ^ 43))"
    by (simp only: add64.simps)
  also have "\<dots> = Num 1500"
    by (rule rnd64_eqI [OF v]) (rule small_le_pow, simp)
  finally show ?thesis .
qed

lemma isDouble_tenth: "isDouble tenth"
  unfolding tenth_def
  by (rule isDouble_I [where K = 3602879701896397 and k = "- 55"])
    (simp_all add: power_int_minus field_simps)

lemma literal_tenth: "rnd64 (1 / 10) = Num tenth"
proof -
  have "roundTo 53 (-1074) (1/10) = of_int 7205759403792794 * 2 powi (-56)"
  proof (rule roundTo_eqI [where k = "-4"])
    show "-56 = max (-4 - (int 53 - 1)) (-1074)" by simp
    show "roundEven (1/10 / 2 powi (-56)) = 7205759403792794"
      by (rule roundEven_eqI) (simp_all add: power_int_minus)
  qed (simp_all add: power_int_minus)
  then have "roundTo 53 (-1074) (1/10) = tenth" by (simp add: power_int_minus tenth_def)
  then show ?thesis by (rule rnd64_eqI) (rule small_le_pow, simp add: tenth_def)
qed

lemma fround_tenth: "fround (Num tenth) = Num (13421773 / 134217728)"
proof -
  have "roundTo 24 (-149) (3602879701896397 / 36028797018963968) = of_int 13421773 * 2 powi (-27)"
  proof (rule roundTo_eqI [where k = "-4"])
    show "-27 = max (-4 - (int 24 - 1)) (-149)" by simp
    show "roundEven (3602879701896397 / 36028797018963968 / 2 powi (-27)) = 13421773"
      by (rule roundEven_eqI) (simp_all add: power_int_minus)
  qed (simp_all add: power_int_minus)
  then have "roundTo 24 (-149) tenth = 13421773 / 134217728"
    by (simp add: power_int_minus tenth_def)
  then have "rnd32 tenth = Num (13421773 / 134217728)"
    by (rule rnd32_eqI) (rule small_le_pow, simp)
  then show ?thesis by simp
qed

lemma Math_PI_range: "0 \<le> Math_PI" "Math_PI \<le> 4"
proof -
  have "roundTo 53 (- 1074) 0 \<le> roundTo 53 (- 1074) pi" by (rule roundTo_mono) simp_all
  then show "0 \<le> Math_PI" by (simp add: Math_PI_def)
  have "roundTo 53 (- 1074) pi \<le> roundTo 53 (- 1074) 4"
    by (rule roundTo_mono) (use pi_less_4 in simp_all)
  moreover have "roundTo 53 (- 1074) 4 = 4"
    using isDouble_round [OF isDouble_int [of 4]] by simp
  ultimately show "Math_PI \<le> 4" by (simp add: Math_PI_def)
qed

lemma two_pi: "\<exists>t. mul64 (Num 2) (Num Math_PI) = Num t \<and> 0 \<le> t \<and> t \<le> 8"
proof -
  have "isDouble 8" using isDouble_int [of 8] by simp
  from rnd64_between [OF isDouble_numerals(1) this, of "2 * Math_PI"] Math_PI_range
  show ?thesis by simp
qed

lemma rnd64_0 [simp]: "rnd64 0 = Num 0"
  by (rule rnd64_double [OF isDouble_numerals(1)])

lemma rnd32_0 [simp]: "rnd32 0 = Num 0"
  by (simp add: rnd32_def maxFloat_def)

lemma theta_zero: "mul64 (mul64 (Num 2) (Num Math_PI)) (Num 0) = Num 0"
proof -
  obtain t where "mul64 (Num 2) (Num Math_PI) = Num t" using two_pi by blast
  then show ?thesis by simp
qed

lemma round_near_one: "roundTo 53 (- 1074) (1 - 1 / 2 ^ 55) = 1"
proof -
  have "roundTo 53 (- 1074) (1 - 1 / 2 ^ 55) = of_int (2 ^ 53) * 2 powi (- 53)"
  proof (rule roundTo_eqI [where k = "- 1"])
    show "- 53 = max (- 1 - (int 53 - 1)) (- 1074)" by simp
    show "roundEven ((1 - 1 / 2 ^ 55) / 2 powi (- 53)) = 2 ^ 53"
      by (rule roundEven_eqI) (simp_all add: power_int_minus)
  qed (simp_all add: power_int_minus)
  then show ?thesis by (simp add: power_int_minus)
qed

lemma cos_lower: "1 - d\<^sup>2 / 2 \<le> cos (d::real)"
proof -
  have "cos d = 1 - 2 * (sin (d / 2))\<^sup>2" using cos_double_sin [of "d / 2"] by simp
  moreover have "(sin (d / 2))\<^sup>2 \<le> (d / 2)\<^sup>2"
    using abs_sin_x_le_abs_x [of "d / 2"] by (simp only: abs_le_square_iff [symmetric])
  ultimately show ?thesis by (simp add: power2_eq_square)
qed

lemma sin_rounded_half_pi:
  "roundTo 53 (- 1074) (sin (roundTo 53 (- 1074) (pi / 2))) = 1"
proof -
  define p where "p = roundTo 53 (- 1074) (pi / 2)"
  have "ulpExp 53 (- 1074) (pi / 2) = max (0 - (int 53 - 1)) (- 1074)"
    by (rule ulpExp_eqI) (use pi_ge_two pi_half_less_two in simp_all)
  then have u: "ulpExp 53 (- 1074) (pi / 2) = - 52" by simp
  have "\<bar>p - pi / 2\<bar> \<le> 2 powi (- 52) / 2"
    using roundTo_err [of 53 "- 1074" "pi / 2"] by (simp add: p_def u)
  then have d: "\<bar>p - pi / 2\<bar> \<le> 1 / 2 ^ 53" by (simp add: power_int_minus)
  have s: "sin p = cos (p - pi / 2)" by (simp add: cos_diff)
  have "(p - pi / 2)\<^sup>2 \<le> (1 / 2 ^ 53)\<^sup>2"
    using d by (simp only: abs_le_square_iff [symmetric])
  then have "(p - pi / 2)\<^sup>2 / 2 \<le> 1 / 2 ^ 55" by (simp add: power2_eq_square)
  with cos_lower [of "p - pi / 2"] have lo: "1 - 1 / 2 ^ 55 \<le> sin p" unfolding s by linarith
  have "roundTo 53 (- 1074) (1 - 1 / 2 ^ 55) \<le> roundTo 53 (- 1074) (sin p)"
    using lo by (intro roundTo_mono) simp_all
  moreover have "roundTo 53 (- 1074) (sin p) \<le> roundTo 53 (- 1074) 1"
    by (intro roundTo_mono) simp_all
  moreover have "roundTo 53 (- 1074) 1 = 1" by (rule isDouble_round [OF isDouble_numerals(2)])
  ultimately show ?thesis unfolding p_def [symmetric] round_near_one by linarith
qed

lemma idealEngine_simps [simp]:
  "Math_sin idealEngine t = roundTo 53 (- 1074) (sin t)"
  "Math_cos idealEngine t = roundTo 53 (- 1074) (cos t)"
  "Math_acos idealEngine t = roundTo 53 (- 1074) (arccos t)"
  "maxArrayLength idealEngine = 4294967295"
  by (simp_all add: idealEngine_def)

lemma starPoint_tenth:
  "\<exists>Z. starPoint idealEngine (Num tenth) 0 (1/2) = (Num (13421773 / 134217728), Num 0, Z)"
proof -
  have one: "roundTo 53 (- 1074) 1 = 1" by (rule isDouble_round [OF isDouble_numerals(2)])
  have r1: "rnd64 1 = Num 1" by (rule rnd64_double [OF isDouble_numerals(2)])
  have phi: "acos64 idealEngine (sub64 (mul64 (Num 2) (Num (1/2))) (Num 1))
      = Num (roundTo 53 (- 1074) (pi / 2))"
    by (simp add: r1)
  have sphi: "sin64 idealEngine (Num (roundTo 53 (- 1074) (pi / 2))) = Num 1"
    by (simp add: sin_rounded_half_pi)
  have ct: "cos64 idealEngine (Num 0) = Num 1" and st: "sin64 idealEngine (Num 0) = Num 0"
    by (simp_all add: one)
  have rt: "rnd64 tenth = Num tenth" by (rule rnd64_double [OF isDouble_tenth])
  have x: "mul64 (mul64 (Num tenth) (Num 1)) (Num 1) = Num tenth" by (simp add: rt)
  have y: "mul64 (mul64 (Num tenth) (Num 1)) (Num 0) = Num 0" by (simp add: rt)
  show ?thesis
    unfolding starPoint_def Let_def theta_zero phi sphi ct st x y
    using fround_tenth by (simp only: fround.simps rnd32_0) blast
qed

lemma sampledR_tenth:
  "sampledR \<lparr> count = 1, radius = tenth, depth = 0 \<rparr> (rngOf [0, 0, 1/2]) 0 = Num tenth"
  using rnd64_double [OF isDouble_tenth] by (simp add: sampledR_def rngOf_def)

lemma norm3_ge_fst: "0 \<le> x \<Longrightarrow> x \<le> norm3 (x, y, z)"
proof -
  assume "0 \<le> x"
  have "x * x \<le> x * x + y * y + z * z" by simp
  then have "sqrt (x * x) \<le> sqrt (x * x + y * y + z * z)" by (rule real_sqrt_le_mono)
  then show ?thesis using \<open>0 \<le> x\<close> by (simp add: norm3_def)
qed

subsection \<open>The error of a stored point\<close>

lemma norm3_triangle:
  "norm3 (a + a', b + b', c + c') \<le> norm3 (a, b, c) + norm3 (a', b', c')"
proof -
  let ?m = "sqrt (a\<^sup>2 + b\<^sup>2)" and ?m' = "sqrt (a'\<^sup>2 + b'\<^sup>2)"
  have 1: "sqrt ((a + a')\<^sup>2 + (b + b')\<^sup>2) \<le> ?m + ?m'"
    by (rule real_sqrt_sum_squares_triangle_ineq)
  have "(sqrt ((a + a')\<^sup>2 + (b + b')\<^sup>2))\<^sup>2 \<le> (?m + ?m')\<^sup>2"
    using 1 by (intro power_mono) simp_all
  then have "(a + a')\<^sup>2 + (b + b')\<^sup>2 \<le> (?m + ?m')\<^sup>2" by simp
  then have "sqrt ((a + a')\<^sup>2 + (b + b')\<^sup>2 + (c + c')\<^sup>2) \<le> sqrt ((?m + ?m')\<^sup>2 + (c + c')\<^sup>2)"
    by (intro real_sqrt_le_mono) simp
  also have "\<dots> \<le> sqrt (?m\<^sup>2 + c\<^sup>2) + sqrt (?m'\<^sup>2 + c'\<^sup>2)"
    by (rule real_sqrt_sum_squares_triangle_ineq)
  also have "\<dots> = sqrt (a\<^sup>2 + b\<^sup>2 + c\<^sup>2) + sqrt (a'\<^sup>2 + b'\<^sup>2 + c'\<^sup>2)" by simp
  finally show ?thesis by (simp add: norm3_def power2_eq_square)
qed

lemma norm3_le_sum: "norm3 (a, b, c) \<le> \<bar>a\<bar> + \<bar>b\<bar> + \<bar>c\<bar>"
proof -
  have "sqrt ((sqrt (a\<^sup>2 + b\<^sup>2))\<^sup>2 + c\<^sup>2) \<le> \<bar>sqrt (a\<^sup>2 + b\<^sup>2)\<bar> + \<bar>c\<bar>"
    by (rule sqrt_sum_squares_le_sum_abs)
  moreover have "sqrt (a\<^sup>2 + b\<^sup>2) \<le> \<bar>a\<bar> + \<bar>b\<bar>" by (rule sqrt_sum_squares_le_sum_abs)
  ultimately show ?thesis by (simp add: norm3_def power2_eq_square)
qed

lemma norm3_close:
  assumes "\<bar>a - a'\<bar> \<le> e" and "\<bar>b - b'\<bar> \<le> e" and "\<bar>c - c'\<bar> \<le> e"
  shows "\<bar>norm3 (a, b, c) - norm3 (a', b', c')\<bar> \<le> 3 * e"
proof -
  have "norm3 (a' + (a - a'), b' + (b - b'), c' + (c - c')) \<le> norm3 (a', b', c') + norm3 (a - a', b - b', c - c')"
    by (rule norm3_triangle)
  then have 1: "norm3 (a, b, c) \<le> norm3 (a', b', c') + norm3 (a - a', b - b', c - c')" by simp
  have "norm3 (a + (a' - a), b + (b' - b), c + (c' - c)) \<le> norm3 (a, b, c) + norm3 (a' - a, b' - b, c' - c)"
    by (rule norm3_triangle)
  then have 2: "norm3 (a', b', c') \<le> norm3 (a, b, c) + norm3 (a' - a, b' - b, c' - c)" by simp
  have "norm3 (a - a', b - b', c - c') \<le> 3 * e" "norm3 (a' - a, b' - b, c' - c) \<le> 3 * e"
    using norm3_le_sum [of "a - a'" "b - b'" "c - c'"] norm3_le_sum [of "a' - a" "b' - b" "c' - c"] assms
    by linarith+
  with 1 2 show ?thesis by linarith
qed

lemma mul64_err:
  assumes "\<bar>a * b\<bar> \<le> 2 ^ 200"
  shows "\<exists>y. mul64 (Num a) (Num b) = Num y \<and> \<bar>y - a * b\<bar> \<le> \<bar>a * b\<bar> / 2 ^ 53 + 1 / 2 ^ 200"
  using rnd64_bound [OF assms] by simp

lemma big:
  assumes "R \<le> 2 ^ 101"
  shows "4 * R + 8 \<le> (2::real) ^ 120" and "4 * R + 8 \<le> (2::real) ^ 200"
proof -
  have "(2::real) ^ 104 \<le> 2 ^ 120" "(2::real) ^ 104 \<le> 2 ^ 200"
    by (rule power_increasing; simp)+
  moreover have "4 * (2::real) ^ 101 + 8 \<le> 2 ^ 104" by simp
  ultimately show "4 * R + 8 \<le> (2::real) ^ 120" and "4 * R + 8 \<le> (2::real) ^ 200"
    using assms by linarith+
qed

lemma tri3: "\<bar>x - z\<bar> \<le> \<bar>x - y\<bar> + \<bar>y - z :: real\<bar>"
  by linarith

lemma tri0: "\<bar>x\<bar> \<le> \<bar>x - y\<bar> + \<bar>y :: real\<bar>"
  by linarith

lemma lin1:
  fixes a b d R h :: real
  assumes "a \<le> b / 2 ^ 53 + h" "d \<le> R / 2 ^ 50" "b \<le> 2 * R" "0 \<le> R" "0 \<le> h"
  shows "a + d \<le> R / 2 ^ 49 + h"
  using assms by (simp add: field_simps)

lemma lin2:
  fixes R h :: real
  assumes "a \<le> R / 2 ^ 49 + h" "b \<le> R" "0 \<le> R" "0 \<le> h"
  shows "a + b \<le> 2 * R + h"
  using assms by (simp add: field_simps)

lemma lin3:
  fixes R h :: real
  assumes "t1 \<le> (2 * R + h) * (1 / 2 ^ 50)" "t2 \<le> 1 * (R / 2 ^ 49 + h)" "0 \<le> R" "0 \<le> h"
  shows "t1 + t2 \<le> R / 2 ^ 48 + 2 * h"
  using assms by (simp add: field_simps)

lemma lin4:
  fixes R h :: real
  assumes "a \<le> b / 2 ^ 53 + h" "b \<le> 4 * R + 2 * h" "d \<le> R / 2 ^ 48 + 2 * h" "0 \<le> R" "0 \<le> h"
  shows "a + d \<le> R / 2 ^ 47 + 4 * h"
  using assms by (simp add: field_simps)

lemma lin5:
  fixes R h :: real
  assumes "a \<le> R / 2 ^ 47 + 4 * h" "b \<le> R" "0 \<le> R" "0 \<le> h"
  shows "a + b \<le> 2 * R + 4 * h"
  using assms by (simp add: field_simps)

lemma lin6:
  fixes R h :: real
  assumes "a \<le> b / 2 ^ 24 + 1 / 2 ^ 150" "b \<le> 2 * R + 4 * h" "d \<le> R / 2 ^ 47 + 4 * h"
    "0 \<le> R" "0 \<le> h" "16 * h \<le> 1 / 2 ^ 150"
  shows "a + d \<le> R / 2 ^ 22 + 1 / 2 ^ 149"
  using assms by (simp add: field_simps)

lemma scaled_close:
  fixes R s \<sigma> :: real
  assumes "0 \<le> R" and "\<bar>s - \<sigma>\<bar> \<le> 1 / 2 ^ 50" and "\<bar>\<sigma>\<bar> \<le> 1"
  shows "\<bar>R * s - R * \<sigma>\<bar> \<le> R / 2 ^ 50" and "\<bar>R * s\<bar> \<le> 2 * R" and "\<bar>R * \<sigma>\<bar> \<le> R"
proof -
  have "R * s - R * \<sigma> = R * (s - \<sigma>)" by (simp add: algebra_simps)
  then have "\<bar>R * s - R * \<sigma>\<bar> = R * \<bar>s - \<sigma>\<bar>"
    using assms(1) by (simp add: abs_mult)
  also have "\<dots> \<le> R * (1 / 2 ^ 50)" using assms(2,1) by (rule mult_left_mono)
  finally show "\<bar>R * s - R * \<sigma>\<bar> \<le> R / 2 ^ 50" by simp
  have "(1::real) / 2 ^ 50 \<le> 1" by simp
  then have "\<bar>s\<bar> \<le> 2" using assms(2,3) by linarith
  then have "R * \<bar>s\<bar> \<le> R * 2" using assms(1) by (rule mult_left_mono)
  then show "\<bar>R * s\<bar> \<le> 2 * R" using assms(1) by (simp add: abs_mult)
  have "R * \<bar>\<sigma>\<bar> \<le> R * 1" using assms(3,1) by (rule mult_left_mono)
  then show "\<bar>R * \<sigma>\<bar> \<le> R" using assms(1) by (simp add: abs_mult)
qed

lemma first_product:
  assumes R: "0 \<le> R" "R \<le> 2 ^ 101" and s: "\<bar>s - \<sigma>\<bar> \<le> 1 / 2 ^ 50" "\<bar>\<sigma>\<bar> \<le> 1"
  shows "\<exists>A. mul64 (Num R) (Num s) = Num A \<and> \<bar>A - R * \<sigma>\<bar> \<le> R / 2 ^ 49 + 1 / 2 ^ 200
            \<and> \<bar>A\<bar> \<le> 2 * R + 1 / 2 ^ 200"
proof -
  define h :: real where "h = 1 / 2 ^ 200"
  have h: "0 \<le> h" by (simp add: h_def)
  note sc = scaled_close [OF R(1) s]
  have "\<bar>R * s\<bar> \<le> 2 ^ 200" using sc(2) R(1) big(2) [OF R(2)] by linarith
  from mul64_err [OF this] obtain A where A: "mul64 (Num R) (Num s) = Num A"
    and eA: "\<bar>A - R * s\<bar> \<le> \<bar>R * s\<bar> / 2 ^ 53 + h" unfolding h_def by blast
  have eA': "\<bar>A - R * \<sigma>\<bar> \<le> R / 2 ^ 49 + h"
    using tri3 [of A "R * \<sigma>" "R * s"] lin1 [OF eA sc(1) sc(2) R(1) h] by linarith
  have "\<bar>A\<bar> \<le> 2 * R + h"
    using tri0 [of A "R * \<sigma>"] lin2 [OF eA' sc(3) R(1) h] by linarith
  with A eA' show ?thesis unfolding h_def by blast
qed

lemma coord_xy:
  assumes R: "0 \<le> R" "R \<le> 2 ^ 101"
    and s: "\<bar>s - \<sigma>\<bar> \<le> 1 / 2 ^ 50" "\<bar>\<sigma>\<bar> \<le> 1"
    and c: "\<bar>c - \<tau>\<bar> \<le> 1 / 2 ^ 50" "\<bar>\<tau>\<bar> \<le> 1"
  shows "\<exists>w. fround (mul64 (mul64 (Num R) (Num s)) (Num c)) = Num w
           \<and> \<bar>w - R * \<sigma> * \<tau>\<bar> \<le> R / 2 ^ 22 + 1 / 2 ^ 149"
proof -
  define h :: real where "h = 1 / 2 ^ 200"
  have h: "0 \<le> h" "h \<le> 1" "16 * h \<le> 1 / 2 ^ 150" by (simp_all add: h_def)
  from first_product [OF R s] obtain A where A: "mul64 (Num R) (Num s) = Num A"
    and eA': "\<bar>A - R * \<sigma>\<bar> \<le> R / 2 ^ 49 + h" and Ab: "\<bar>A\<bar> \<le> 2 * R + h"
    unfolding h_def by blast
  have "(1::real) / 2 ^ 50 \<le> 1" by simp
  then have c2: "\<bar>c\<bar> \<le> 2" using c by linarith
  have "\<bar>A * c\<bar> \<le> (2 * R + h) * 2"
    unfolding abs_mult using Ab c2 by (intro mult_mono) simp_all
  then have Ac: "\<bar>A * c\<bar> \<le> 4 * R + 2 * h" by simp
  have "\<bar>A * c\<bar> \<le> 2 ^ 200" using Ac R(1) h(2) big(2) [OF R(2)] by linarith
  from mul64_err [OF this] obtain X where X: "mul64 (Num A) (Num c) = Num X"
    and eX: "\<bar>X - A * c\<bar> \<le> \<bar>A * c\<bar> / 2 ^ 53 + h" unfolding h_def by blast
  have split: "A * c - R * \<sigma> * \<tau> = A * (c - \<tau>) + \<tau> * (A - R * \<sigma>)" by (simp add: algebra_simps)
  have t1: "\<bar>A * (c - \<tau>)\<bar> \<le> (2 * R + h) * (1 / 2 ^ 50)"
    unfolding abs_mult using Ab c(1) by (intro mult_mono) simp_all
  have t2: "\<bar>\<tau> * (A - R * \<sigma>)\<bar> \<le> 1 * (R / 2 ^ 49 + h)"
    unfolding abs_mult using c(2) eA' by (intro mult_mono) simp_all
  have "\<bar>A * c - R * \<sigma> * \<tau>\<bar> \<le> \<bar>A * (c - \<tau>)\<bar> + \<bar>\<tau> * (A - R * \<sigma>)\<bar>"
    unfolding split by (rule abs_triangle_ineq)
  then have d2: "\<bar>A * c - R * \<sigma> * \<tau>\<bar> \<le> R / 2 ^ 48 + 2 * h"
    using lin3 [OF t1 t2 R(1) h(1)] by linarith
  have eX': "\<bar>X - R * \<sigma> * \<tau>\<bar> \<le> R / 2 ^ 47 + 4 * h"
    using tri3 [of X "R * \<sigma> * \<tau>" "A * c"] lin4 [OF eX Ac d2 R(1) h(1)] by linarith
  have Rst: "\<bar>R * \<sigma> * \<tau>\<bar> \<le> R"
  proof -
    have "\<bar>R * \<sigma> * \<tau>\<bar> = \<bar>R * \<sigma>\<bar> * \<bar>\<tau>\<bar>" by (simp add: abs_mult)
    also have "\<dots> \<le> R * 1" using scaled_close(3) [OF R(1) s] c(2) by (intro mult_mono) simp_all
    finally show ?thesis by simp
  qed
  have Xb: "\<bar>X\<bar> \<le> 2 * R + 4 * h"
    using tri0 [of X "R * \<sigma> * \<tau>"] lin5 [OF eX' Rst R(1) h(1)] by linarith
  then have "\<bar>X\<bar> \<le> 2 ^ 120" using R(1) h(2) big(1) [OF R(2)] by linarith
  from rnd32_bound [OF this] obtain w where w: "rnd32 X = Num w"
    and ew: "\<bar>w - X\<bar> \<le> \<bar>X\<bar> / 2 ^ 24 + 1 / 2 ^ 150" by blast
  have "\<bar>w - R * \<sigma> * \<tau>\<bar> \<le> R / 2 ^ 22 + 1 / 2 ^ 149"
    using tri3 [of w "R * \<sigma> * \<tau>" X] lin6 [OF ew Xb eX' R(1) h(1) h(3)] by linarith
  then show ?thesis using A X w by simp
qed

lemma coord_z:
  assumes R: "0 \<le> R" "R \<le> 2 ^ 101" and c: "\<bar>c - \<kappa>\<bar> \<le> 1 / 2 ^ 50" "\<bar>\<kappa>\<bar> \<le> 1"
  shows "\<exists>w. fround (mul64 (Num R) (Num c)) = Num w
           \<and> \<bar>w - R * \<kappa>\<bar> \<le> R / 2 ^ 22 + 1 / 2 ^ 149"
proof -
  define h :: real where "h = 1 / 2 ^ 200"
  have h: "0 \<le> h" "h \<le> 1" "16 * h \<le> 1 / 2 ^ 150" by (simp_all add: h_def)
  from first_product [OF R c] obtain A where A: "mul64 (Num R) (Num c) = Num A"
    and eA': "\<bar>A - R * \<kappa>\<bar> \<le> R / 2 ^ 49 + h" and Ab: "\<bar>A\<bar> \<le> 2 * R + h"
    unfolding h_def by blast
  have eA'': "\<bar>A - R * \<kappa>\<bar> \<le> R / 2 ^ 47 + 4 * h"
  proof -
    have "R / 2 ^ 49 \<le> R / 2 ^ 47" using R(1) by (simp add: field_simps)
    with eA' h(1) show ?thesis by linarith
  qed
  have Ab': "\<bar>A\<bar> \<le> 2 * R + 4 * h" using Ab h(1) by linarith
  then have "\<bar>A\<bar> \<le> 2 ^ 120" using R(1) h(2) big(1) [OF R(2)] by linarith
  from rnd32_bound [OF this] obtain w where w: "rnd32 A = Num w"
    and ew: "\<bar>w - A\<bar> \<le> \<bar>A\<bar> / 2 ^ 24 + 1 / 2 ^ 150" by blast
  have "\<bar>w - R * \<kappa>\<bar> \<le> R / 2 ^ 22 + 1 / 2 ^ 149"
    using tri3 [of w "R * \<kappa>" A] lin6 [OF ew Ab' eA'' R(1) h(1) h(3)] by linarith
  then show ?thesis using A w by simp
qed

lemma theta_finite:
  assumes "0 \<le> u" and "u < 1"
  shows "\<exists>t. mul64 (mul64 (Num 2) (Num Math_PI)) (Num u) = Num t"
proof -
  obtain t where t: "mul64 (Num 2) (Num Math_PI) = Num t" "0 \<le> t" "t \<le> 8" using two_pi by blast
  have 8: "isDouble 8" using isDouble_int [of 8] by simp
  have "0 \<le> t * u" using t(2) assms(1) by simp
  moreover have "t * u \<le> 8 * 1" using t(2,3) assms by (intro mult_mono) simp_all
  ultimately obtain y where "rnd64 (t * u) = Num y"
    using rnd64_between [OF isDouble_numerals(1) 8, of "t * u"] by auto
  moreover have "rnd64 (2 * Math_PI) = Num t" using t(1) by simp
  ultimately show ?thesis by simp
qed

lemma phi_finite:
  assumes "0 \<le> v" and "v < 1"
  shows "\<exists>t. acos64 E (sub64 (mul64 (Num 2) (Num v)) (Num 1)) = Num t"
proof -
  obtain a where a: "rnd64 (2 * v) = Num a" "0 \<le> a" "a \<le> 2"
    using rnd64_between [OF isDouble_numerals(1) isDouble_numerals(3), of "2 * v"] assms by auto
  have m1: "isDouble (- 1)" using isDouble_int [of "- 1"] by simp
  obtain w where w: "rnd64 (a - 1) = Num w" "- 1 \<le> w" "w \<le> 1"
    using rnd64_between [OF m1 isDouble_numerals(2), of "a - 1"] a(2,3) by auto
  show ?thesis by (simp add: a(1) w)
qed

lemma starPoint_close:
  assumes E: "accurate E" and R: "0 \<le> R" "R \<le> 2 ^ 101"
    and u: "0 \<le> u" "u < 1" and v: "0 \<le> v" "v < 1"
  shows "\<exists>d. distance (starPoint E (Num R) u v) = Num d
           \<and> \<bar>d - R\<bar> \<le> 3 * (R / 2 ^ 22 + 1 / 2 ^ 149)"
proof -
  obtain th where th: "mul64 (mul64 (Num 2) (Num Math_PI)) (Num u) = Num th"
    using theta_finite [OF u] by blast
  obtain ph where ph: "acos64 E (sub64 (mul64 (Num 2) (Num v)) (Num 1)) = Num ph"
    using phi_finite [OF v] by blast
  have acc: "\<bar>Math_sin E t - sin t\<bar> \<le> 1 / 2 ^ 50" "\<bar>Math_cos E t - cos t\<bar> \<le> 1 / 2 ^ 50" for t
    using E by (simp_all add: accurate_def)
  obtain x where x: "fround (mul64 (mul64 (Num R) (Num (Math_sin E ph))) (Num (Math_cos E th))) = Num x"
    and ex: "\<bar>x - R * sin ph * cos th\<bar> \<le> R / 2 ^ 22 + 1 / 2 ^ 149"
    using coord_xy [OF R acc(1) abs_sin_le_one acc(2) abs_cos_le_one] by blast
  obtain y where y: "fround (mul64 (mul64 (Num R) (Num (Math_sin E ph))) (Num (Math_sin E th))) = Num y"
    and ey: "\<bar>y - R * sin ph * sin th\<bar> \<le> R / 2 ^ 22 + 1 / 2 ^ 149"
    using coord_xy [OF R acc(1) abs_sin_le_one acc(1) abs_sin_le_one] by blast
  obtain z where z: "fround (mul64 (Num R) (Num (Math_cos E ph))) = Num z"
    and ez: "\<bar>z - R * cos ph\<bar> \<le> R / 2 ^ 22 + 1 / 2 ^ 149"
    using coord_z [OF R acc(2) abs_cos_le_one] by blast
  have sp: "starPoint E (Num R) u v = (Num x, Num y, Num z)"
    by (simp add: starPoint_def th ph x y z del: fround.simps mul64.simps)
  have "\<bar>norm3 (x, y, z) - norm3 (R * sin ph * cos th, R * sin ph * sin th, R * cos ph)\<bar>
      \<le> 3 * (R / 2 ^ 22 + 1 / 2 ^ 149)"
    by (rule norm3_close [OF ex ey ez])
  moreover have "norm3 (R * sin ph * cos th, R * sin ph * sin th, R * cos ph) = R"
    using norm3_sphere [of R ph th] R(1) by (simp add: sphere_def)
  ultimately show ?thesis by (simp add: sp)
qed

lemma linUp:
  fixes T S R d :: real
  assumes "S \<le> T + T / 2 ^ 53 + 1 / 2 ^ 200" "R \<le> S" "d \<le> R + 3 * (R / 2 ^ 22 + 1 / 2 ^ 149)"
    "0 \<le> T" "0 \<le> R"
  shows "d \<le> T * (1 + 1 / 2 ^ 20) + 1 / 2 ^ 140"
  using assms by (simp add: field_simps)

lemma linLo:
  fixes a R d :: real
  assumes "a \<le> R" "R - 3 * (R / 2 ^ 22 + 1 / 2 ^ 149) \<le> d" "0 \<le> a"
  shows "a * (1 - 1 / 2 ^ 20) - 1 / 2 ^ 140 \<le> d"
  using assms by (simp add: field_simps)

lemma linR:
  fixes T S :: real
  assumes "S \<le> T + T / 2 ^ 53 + 1 / 2 ^ 200" "T \<le> 2 ^ 100" "0 \<le> T"
  shows "S \<le> 2 ^ 101"
  using assms by (simp add: field_simps)

lemma accurate_idealEngine: "accurate idealEngine"
proof -
  have b: "\<bar>roundTo 53 (- 1074) x - x\<bar> \<le> 1 / 2 ^ 50" if "\<bar>x\<bar> \<le> 1" for x :: real
  proof -
    have "\<bar>roundTo 53 (- 1074) x - x\<bar> \<le> \<bar>x\<bar> / 2 ^ 53 + 1 / 2 ^ 200"
      using roundTo_rel [of 53 "- 1074" x] eta64 by simp
    moreover have "\<bar>x\<bar> / 2 ^ 53 \<le> 1 / 2 ^ 53" using that by (simp add: divide_right_mono)
    moreover have "(1::real) / 2 ^ 53 + 1 / 2 ^ 200 \<le> 1 / 2 ^ 50" by simp
    ultimately show ?thesis by linarith
  qed
  have "\<bar>sin t\<bar> \<le> 1" "\<bar>cos t\<bar> \<le> 1" for t :: real
    by (simp_all add: abs_le_iff)
  then have "\<bar>roundTo 53 (- 1074) (sin t) - sin t\<bar> \<le> 1 / 2 ^ 50
      \<and> \<bar>roundTo 53 (- 1074) (cos t) - cos t\<bar> \<le> 1 / 2 ^ 50" for t :: real
    using b by blast
  then show ?thesis unfolding accurate_def idealEngine_def engine.select_convs by blast
qed

section \<open>Lemmas about the start-up, the frame and the resize listener\<close>

lemma compose_total:
  assumes "l dayPath = Inr d" and "24000 \<le> maxArrayLength E"
  shows "\<exists>s. compose E win l g o0 = Inr s"
  using assms by (simp add: compose_def Let_def makeStarField_Inr split: sum.splits)

lemma compose_camera:
  assumes "compose E win l g o0 = Inr s"
  shows "camera s = (PerspectiveCamera 45 (js_div (real (innerWidth win)) (real (innerHeight win)))
                   0.1 2000)\<lparr>position := (0, 0, 6)\<rparr>"
  using assms by (auto simp: compose_def Let_def split: sum.splits)

lemma compose_controls:
  assumes "compose E win l g o0 = Inr s"
  shows "controls s = \<lparr> enableDamping = True, dampingFactor = 0.06, minDistance = 3.0,
                   maxDistance = 20.0, internal = o0 \<rparr>"
  using assms by (auto simp: compose_def Let_def split: sum.splits)

lemma compose_renderer:
  assumes "compose E win l g o0 = Inr s"
  shows "renderer s = \<lparr> antialias = True, pixelRatio = min (devicePixelRatio win) 2,
                    width = innerWidth win, height = innerHeight win,
                    outputColorSpace = SRGBColorSpace, toneMapping = ACESFilmicToneMapping,
                    toneMappingExposure = 1.2 \<rparr>"
  using assms by (auto simp: compose_def Let_def split: sum.splits)

lemma compose_earth:
  assumes "compose E win l g o0 = Inr s"
  shows "renderOrder (earth s) = 0" and "geometry (earth s) = SphereGeometry 1 128 128"
    and "rotation_y (earth s) = 0"
  using assms by (auto simp: compose_def Let_def Mesh_def split: sum.splits)

lemma compose_atmosphere:
  assumes "compose E win l g o0 = Inr s"
  shows "renderOrder (atmosphere s) = 3" and "geometry (atmosphere s) = SphereGeometry 1.03 128 128"
  using assms by (auto simp: compose_def Let_def Mesh_def split: sum.splits)

lemma compose_night:
  assumes "compose E win l g o0 = Inr s"
  shows "nightMesh s =
     (case l nightPath of
        Inl e \<Rightarrow> None
      | Inr t \<Rightarrow> Some ((Mesh (SphereGeometry 1 128 128)
           ((Material MeshBasicMaterial)
              \<lparr> map_tex := Some (t\<lparr>colorSpace := SRGBColorSpace\<rparr>), blending := AdditiveBlending,
                transparent := True, depthWrite := False \<rparr>))\<lparr>renderOrder := 1\<rparr>))"
  using assms
  by (auto simp: compose_def Let_def tryLoad_def tagSRGB_def split: sum.splits)

lemma compose_clouds:
  assumes "compose E win l g o0 = Inr s"
  shows "clouds s =
     (case l cloudsPath of
        Inl e \<Rightarrow> None
      | Inr t \<Rightarrow> Some ((Mesh (SphereGeometry 1.008 128 128)
           ((Material MeshLambertMaterial)
              \<lparr> map_tex := Some (t\<lparr>colorSpace := SRGBColorSpace\<rparr>), transparent := True,
                opacity := 0.75, depthWrite := False \<rparr>))\<lparr>renderOrder := 2\<rparr>))"
  using assms
  by (auto simp: compose_def Let_def tryLoad_def tagSRGB_def split: sum.splits)

lemma compose_scene:
  assumes "compose E win l g o0 = Inr s"
  shows "scene s = [Sun, Ambient, Earth]
           @ (case l nightPath of Inl e \<Rightarrow> [] | Inr t \<Rightarrow> [NightLights])
           @ (case l cloudsPath of Inl e \<Rightarrow> [] | Inr t \<Rightarrow> [Clouds])
           @ [Atmosphere, Stars]"
  using assms
  by (auto simp: compose_def Let_def tryLoad_def tagSRGB_def split: sum.splits)

lemma compose_earth_material:
  assumes "compose E win l g o0 = Inr s"
  shows "normalMap (mesh_material (earth s)) = tryLoad normalPath l"
    and "specularMap (mesh_material (earth s)) = tryLoad specularPath l"
    and "map_tex (mesh_material (earth s)) = map_option (\<lambda>t. t\<lparr>colorSpace := SRGBColorSpace\<rparr>) (tryLoad dayPath l)"
  using assms
  by (auto simp: compose_def Let_def tryLoad_def Mesh_def Material_def split: sum.splits)

lemma run_Nil: "run update s [] = s"
  by (simp add: run_def)

lemma run_Cons: "run update s (e # evs) = run update (step update s e) evs"
  by (simp add: run_def)

lemma run_preserves:
  assumes "\<And>s e. f (step update s e) = f s"
  shows "f (run update s evs) = f s"
proof (induction evs arbitrary: s)
  case Nil
  show ?case by (simp add: run_Nil)
next
  case (Cons e evs)
  show ?case using Cons [of "step update s e"] assms [of s e] by (simp add: run_Cons)
qed

lemma tick_earth: "earth (tick update t s) = (earth s)\<lparr>rotation_y := t * 0.08\<rparr>"
  by (simp add: tick_def Let_def split_def split: option.splits)

lemma tick_clouds:
  "clouds (tick update t s) = map_option (\<lambda>c. c\<lparr>rotation_y := t * 0.11\<rparr>) (clouds s)"
  by (simp add: tick_def Let_def split_def split: option.splits)

lemma tick_nightMesh:
  "nightMesh (tick update t s) =
     map_option (\<lambda>n. n\<lparr>mesh_material := (mesh_material n)\<lparr>opacity := 0.6\<rparr>\<rparr>) (nightMesh s)"
  by (simp add: tick_def Let_def split_def split: option.splits)

lemma tick_controls:
  "controls (tick update t s) =
     (controls s)\<lparr>internal := fst (update (controls s) (position (camera s), quaternion (camera s)))\<rparr>"
  by (simp add: tick_def Let_def split_def split: option.splits)

lemma tick_camera:
  "camera (tick update t s) =
     (camera s)\<lparr>position := fst (snd (update (controls s) (position (camera s), quaternion (camera s)))),
                quaternion := snd (snd (update (controls s) (position (camera s), quaternion (camera s))))\<rparr>"
  by (simp add: tick_def Let_def split_def split: option.splits)

lemma tick_rest:
  "atmosphere (tick update t s) = atmosphere s"
  "stars (tick update t s) = stars s"
  "scene (tick update t s) = scene s"
  "renderer (tick update t s) = renderer s"
  "sun (tick update t s) = sun s"
  "ambient (tick update t s) = ambient s"
  "rendered (tick update t s) = rendered s + 1"
  "requested (tick update t s) = requested s + 1"
  by (simp_all add: tick_def Let_def split_def split: option.splits)

lemma resize_camera:
  "camera (resize win s) =
     updateProjectionMatrix
       ((camera s)\<lparr>aspect := js_div (real (innerWidth win)) (real (innerHeight win))\<rparr>)"
  by (simp add: resize_def Let_def)

lemma resize_renderer:
  "renderer (resize win s) =
     setPixelRatio (min (devicePixelRatio win) 2)
       (setSize (innerWidth win) (innerHeight win) (renderer s))"
  by (simp add: resize_def Let_def)

lemma resize_rest:
  "earth (resize win s) = earth s"
  "clouds (resize win s) = clouds s"
  "nightMesh (resize win s) = nightMesh s"
  "atmosphere (resize win s) = atmosphere s"
  "stars (resize win s) = stars s"
  "scene (resize win s) = scene s"
  "controls (resize win s) = controls s"
  "sun (resize win s) = sun s"
  "ambient (resize win s) = ambient s"
  "rendered (resize win s) = rendered s"
  "requested (resize win s) = requested s"
  by (simp_all add: resize_def Let_def)

lemma step_orders:
  "renderOrder (earth (step update s e)) = renderOrder (earth s)"
  "map_option renderOrder (nightMesh (step update s e)) = map_option renderOrder (nightMesh s)"
  "map_option renderOrder (clouds (step update s e)) = map_option renderOrder (clouds s)"
  "renderOrder (atmosphere (step update s e)) = renderOrder (atmosphere s)"
  by (cases e; simp add: tick_earth tick_nightMesh tick_clouds tick_rest resize_rest
        option.map_comp comp_def)+

lemma step_presence:
  "scene (step update s e) = scene s"
  "(nightMesh (step update s e) = None) = (nightMesh s = None)"
  "(clouds (step update s e) = None) = (clouds s = None)"
  "normalMap (mesh_material (earth (step update s e))) = normalMap (mesh_material (earth s))"
  "specularMap (mesh_material (earth (step update s e))) = specularMap (mesh_material (earth s))"
  by (cases e; simp add: tick_earth tick_nightMesh tick_clouds tick_rest resize_rest)+

lemma step_settings:
  "enableDamping (controls (step update s e)) = enableDamping (controls s)"
  "dampingFactor (controls (step update s e)) = dampingFactor (controls s)"
  "minDistance (controls (step update s e)) = minDistance (controls s)"
  "maxDistance (controls (step update s e)) = maxDistance (controls s)"
  "fov (camera (step update s e)) = fov (camera s)"
  "near (camera (step update s e)) = near (camera s)"
  "far (camera (step update s e)) = far (camera s)"
  by (cases e; simp add: tick_controls tick_camera resize_rest resize_camera
        updateProjectionMatrix_def)+

lemma run_orders:
  "renderOrder (earth (run update s evs)) = renderOrder (earth s)"
  "map_option renderOrder (nightMesh (run update s evs)) = map_option renderOrder (nightMesh s)"
  "map_option renderOrder (clouds (run update s evs)) = map_option renderOrder (clouds s)"
  "renderOrder (atmosphere (run update s evs)) = renderOrder (atmosphere s)"
  by (rule run_preserves, simp add: step_orders)+

lemma run_presence:
  "scene (run update s evs) = scene s"
  "(nightMesh (run update s evs) = None) = (nightMesh s = None)"
  "(clouds (run update s evs) = None) = (clouds s = None)"
  "normalMap (mesh_material (earth (run update s evs))) = normalMap (mesh_material (earth s))"
  "specularMap (mesh_material (earth (run update s evs))) = specularMap (mesh_material (earth s))"
  by (rule run_preserves, simp add: step_presence)+

lemma run_settings:
  "enableDamping (controls (run update s evs)) = enableDamping (controls s)"
  "dampingFactor (controls (run update s evs)) = dampingFactor (controls s)"
  "minDistance (controls (run update s evs)) = minDistance (controls s)"
  "maxDistance (controls (run update s evs)) = maxDistance (controls s)"
  "fov (camera (run update s evs)) = fov (camera s)"
  "near (camera (run update s evs)) = near (camera s)"
  "far (camera (run update s evs)) = far (camera s)"
  by (rule run_preserves, simp add: step_settings)+

lemma session_Inr:
  assumes "session E update win l g o0 t0 evs = Inr s"
  obtains s0 where "compose E win l g o0 = Inr s0" and "s = run update (tick update t0 s0) evs"
  using assms by (auto simp: session_def split: sum.splits)

lemma example_compose:
  obtains s n c where "compose idealEngine exampleWindow loadAll (constRng (1/2)) () = Inr s"
    and "nightMesh s = Some n" and "clouds s = Some c"
proof -
  obtain s :: "unit state" where s: "compose idealEngine exampleWindow loadAll (constRng (1/2)) () = Inr s"
    using compose_total [of loadAll _ idealEngine exampleWindow "constRng (1/2)" "()"]
    by (auto simp: loadAll_def)
  have "nightMesh s \<noteq> None" and "clouds s \<noteq> None"
    by (simp_all add: compose_night [OF s] compose_clouds [OF s] loadAll_def)
  with s that show ?thesis by blast
qed

lemma paths_distinct:
  "dayPath \<noteq> cloudsPath" "dayPath \<noteq> nightPath" "nightPath \<noteq> cloudsPath"
  "normalPath \<noteq> cloudsPath" "specularPath \<noteq> cloudsPath"
  by (simp_all add: dayPath_def cloudsPath_def nightPath_def normalPath_def specularPath_def)

section \<open>The claims\<close>

text \<open>
  Claim C1, as amended. Take a call with a positive count whose buffer the engine can
  allocate, a radius and a depth that are non-negative doubles with a sum of at most
  \<open>2 ^ 100\<close>, a random source that keeps the contract of
  \<^verbatim>\<open>Math.random\<close>, and an engine with an accurate sine and cosine. Then
  \<open>makeStarField\<close> returns a cloud of exactly \<open>count\<close> points, every stored
  coordinate is finite, and the Euclidean distance \<open>d\<close> of each stored point from
  the origin is at least \<open>radius * (1 - 1 / 2 ^ 20) - 1 / 2 ^ 140\<close> and at
  most \<open>(radius + depth) * (1 + 1 / 2 ^ 20) + 1 / 2 ^ 140\<close>. The margin covers
  the rounding of the arithmetic to binary64 and of the three stores to binary32.
\<close>

theorem makeStarField_count_and_shell:
  assumes "0 < count os" and "count os * 3 \<le> int (maxArrayLength E)"
    and "0 \<le> radius os" and "0 \<le> depth os"
    and "isDouble (radius os)" and "isDouble (depth os)"
    and "radius os + depth os \<le> 2 ^ 100"
    and "unit_rng g" and "accurate E"
  shows "\<exists>p. makeStarField E os g = Inr p \<and> int (pointCount p) = count os \<and>
           (\<forall>k. int k < count os \<longrightarrow>
              (\<exists>d. distance (point p k) = Num d
                 \<and> radius os * (1 - 1 / 2 ^ 20) - 1 / 2 ^ 140 \<le> d
                 \<and> d \<le> (radius os + depth os) * (1 + 1 / 2 ^ 20) + 1 / 2 ^ 140))"
proof -
  have c: "0 \<le> count os" using assms(1) by simp
  obtain p where m: "makeStarField E os g = Inr p"
    using makeStarField_Inr [OF c assms(2), of g] by blast
  have "pointCount p = nat (count os)"
    using makeStarField_length(1,2) [OF m] by (simp add: pointCount_def)
  then have n: "int (pointCount p) = count os" using c by simp
  let ?T = "radius os + depth os"
  have T0: "0 \<le> ?T" using assms(3,4) by simp
  have "\<bar>?T\<bar> \<le> 2 ^ 200"
  proof -
    have "(2::real) ^ 100 \<le> 2 ^ 200" by (rule power_increasing) simp_all
    with assms(7) T0 show ?thesis by linarith
  qed
  from rnd64_bound [OF this] obtain S where S: "add64 (Num (radius os)) (Num (depth os)) = Num S"
    and eS: "\<bar>S - ?T\<bar> \<le> \<bar>?T\<bar> / 2 ^ 53 + 1 / 2 ^ 200" by auto
  have Sup: "S \<le> ?T + ?T / 2 ^ 53 + 1 / 2 ^ 200" using eS T0 by linarith
  have shell: "\<exists>d. distance (point p k) = Num d
                 \<and> radius os * (1 - 1 / 2 ^ 20) - 1 / 2 ^ 140 \<le> d
                 \<and> d \<le> ?T * (1 + 1 / 2 ^ 20) + 1 / 2 ^ 140"
    if k: "int k < count os" for k
  proof -
    have a: "0 \<le> g (3 * k)" "g (3 * k) < 1" using assms(8) by (simp_all add: unit_rng_def)
    have u: "0 \<le> g (3 * k + 1)" "g (3 * k + 1) < 1" using assms(8) by (simp_all add: unit_rng_def)
    have v: "0 \<le> g (3 * k + 2)" "g (3 * k + 2) < 1" using assms(8) by (simp_all add: unit_rng_def)
    obtain R where R: "sampledR os g k = Num R" "radius os \<le> R" "R \<le> S"
      using sampledR_range [OF a assms(5,6,4) S] unfolding sampledR_def by blast
    have R0: "0 \<le> R" using R(2) assms(3) by linarith
    have R1: "R \<le> 2 ^ 101" using linR [OF Sup assms(7) T0] R(3) by linarith
    obtain d where d: "distance (starPoint E (Num R) (g (3 * k + 1)) (g (3 * k + 2))) = Num d"
      and ed: "\<bar>d - R\<bar> \<le> 3 * (R / 2 ^ 22 + 1 / 2 ^ 149)"
      using starPoint_close [OF assms(9) R0 R1 u v] by blast
    have "distance (point p k) = Num d"
      using makeStarField_point [OF m k] R(1) d by simp
    moreover have "d \<le> ?T * (1 + 1 / 2 ^ 20) + 1 / 2 ^ 140"
    proof (rule linUp [OF Sup R(3) _ T0 R0])
      show "d \<le> R + 3 * (R / 2 ^ 22 + 1 / 2 ^ 149)" using ed by linarith
    qed
    moreover have "radius os * (1 - 1 / 2 ^ 20) - 1 / 2 ^ 140 \<le> d"
    proof (rule linLo [OF R(2) _ assms(3)])
      show "R - 3 * (R / 2 ^ 22 + 1 / 2 ^ 149) \<le> d" using ed by linarith
    qed
    ultimately show ?thesis by blast
  qed
  show ?thesis using m n shell by blast
qed

text \<open>
  Two points at radius 900, depth 600, every draw equal to one half, on the engine with
  correctly rounded functions.
\<close>

theorem makeStarField_count_and_shell_witness:
  "\<exists>p. makeStarField idealEngine \<lparr> count = 2, radius = 900, depth = 600 \<rparr> (constRng (1/2)) = Inr p
      \<and> int (pointCount p) = 2
      \<and> (\<forall>k. int k < 2 \<longrightarrow>
            (\<exists>d. distance (point p k) = Num d
               \<and> 900 * (1 - 1 / 2 ^ 20) - 1 / 2 ^ 140 \<le> d
               \<and> d \<le> (900 + 600) * (1 + 1 / 2 ^ 20) + 1 / 2 ^ 140))"
proof -
  have u: "unit_rng (constRng (1/2))" by (simp add: unit_rng_def constRng_def)
  have "(1500::real) \<le> 2 ^ 11" by simp
  also have "\<dots> \<le> (2::real) ^ 100" by (rule power_increasing) simp_all
  finally have T: "(900::real) + 600 \<le> 2 ^ 100" by simp
  show ?thesis
    using makeStarField_count_and_shell
      [of "\<lparr> count = 2, radius = 900, depth = 600 \<rparr>" idealEngine "constRng (1/2)",
        OF _ _ _ _ _ _ _ u accurate_idealEngine]
      isDouble_numerals T
    by simp
qed

text \<open>
  Claim C1 as it was stated puts the distance of every point in the closed interval from
  \<open>radius\<close> to \<open>radius + depth\<close>. Take one point with the radius
  \<^verbatim>\<open>0.1\<close>, which denotes the double \<open>tenth\<close>, depth 0, and the draws 0, 0
  and one half. The call returns, and the first stored coordinate is the binary32 number
  nearest to the radius, 13421773 / 134217728, which is larger than the radius. So the
  distance of the point is outside the interval.
\<close>

theorem stored_distance_counterexample:
  "rnd64 (1 / 10) = Num tenth
   \<and> \<not> isl (makeStarField idealEngine \<lparr> count = 1, radius = tenth, depth = 0 \<rparr>
               (rngOf [0, 0, 1/2]))
   \<and> fst (point (projr (makeStarField idealEngine \<lparr> count = 1, radius = tenth, depth = 0 \<rparr>
                          (rngOf [0, 0, 1/2]))) 0) = Num (13421773 / 134217728)
   \<and> radius \<lparr> count = 1, radius = tenth, depth = 0 \<rparr>
       + depth \<lparr> count = 1, radius = tenth, depth = 0 \<rparr> < 13421773 / 134217728
   \<and> \<not> inShell \<lparr> count = 1, radius = tenth, depth = 0 \<rparr>
         (distance (point (projr (makeStarField idealEngine
                                    \<lparr> count = 1, radius = tenth, depth = 0 \<rparr>
                                    (rngOf [0, 0, 1/2]))) 0))"
proof -
  let ?os = "\<lparr> count = 1, radius = tenth, depth = 0 \<rparr>"
  let ?g = "rngOf [0, 0, 1/2]"
  obtain p where m: "makeStarField idealEngine ?os ?g = Inr p"
    using makeStarField_Inr [of ?os idealEngine ?g] by simp
  have "point p 0 = starPoint idealEngine (sampledR ?os ?g 0) (?g (3 * 0 + 1)) (?g (3 * 0 + 2))"
    by (rule makeStarField_point [OF m]) simp
  also have "\<dots> = starPoint idealEngine (Num tenth) 0 (1/2)"
    by (simp add: sampledR_tenth) (simp add: rngOf_def)
  finally obtain Z where pt: "point p 0 = (Num (13421773 / 134217728), Num 0, Z)"
    using starPoint_tenth by auto
  have lt: "tenth < 13421773 / 134217728" by (simp add: tenth_def)
  have "\<not> inShell ?os (distance (Num (13421773 / 134217728), Num 0, Z))"
  proof (cases Z)
    case (Num z)
    have "13421773 / 134217728 \<le> norm3 (13421773 / 134217728, 0, z)"
      by (rule norm3_ge_fst) simp
    with lt show ?thesis by (simp add: Num)
  next
    case NonFinite
    then show ?thesis by simp
  qed
  then show ?thesis using m pt lt literal_tenth by simp
qed

text \<open>
  Claim C2. A frame that reads the elapsed time \<open>t\<close> sets the rotation angle of the
  Earth to \<open>0.08 * t\<close> and, when the cloud mesh is present, the rotation angle of the
  clouds to \<open>0.11 * t\<close>. The Earth angle depends on \<open>t\<close> alone, whatever the
  state and the controls; it is 0 at \<open>t = 0\<close> and 0.8 at \<open>t = 10\<close>.
\<close>

theorem tick_rotation:
  "rotation_y (earth (tick update t s)) = 0.08 * t
   \<and> (\<forall>c. clouds s = Some c \<longrightarrow>
         (\<exists>c'. clouds (tick update t s) = Some c' \<and> rotation_y c' = 0.11 * t))
   \<and> rotation_y (earth (tick update 0 s)) = 0
   \<and> rotation_y (earth (tick update 10 s)) = 0.8
   \<and> rotation_y (earth (tick update t s)) = rotation_y (earth (tick update' t s'))"
  by (simp add: tick_earth tick_clouds)

text \<open>The state built with every texture loaded, at \<open>t = 10\<close> and \<open>t = 0\<close>.\<close>

theorem tick_rotation_witness:
  "\<exists>s c. compose idealEngine exampleWindow loadAll (constRng (1/2)) () = Inr s \<and> clouds s = Some c
      \<and> rotation_y (earth (tick stillControls 10 s)) = 0.8
      \<and> rotation_y (earth (tick stillControls 0 s)) = 0
      \<and> (\<exists>c'. clouds (tick stillControls 10 s) = Some c' \<and> rotation_y c' = 1.1)"
proof -
  obtain s n c where s: "compose idealEngine exampleWindow loadAll (constRng (1/2)) () = Inr s"
    and c: "clouds s = Some c" by (rule example_compose)
  note T = tick_rotation [of stillControls 10 s stillControls s]
  from T have e: "rotation_y (earth (tick stillControls 10 s)) = 0.8"
    and z: "rotation_y (earth (tick stillControls 0 s)) = 0" by simp_all
  from T c have "\<exists>c'. clouds (tick stillControls 10 s) = Some c' \<and> rotation_y c' = 1.1"
    by simp
  with s c e z show ?thesis by blast
qed

text \<open>
  Claim C3. In every state of a run, after any sequence of frames and resize events and
  whichever optional textures were loaded: the atmosphere has render order 3, a night
  mesh that is present has render order 1, a cloud mesh that is present has render order
  2, and the Earth mesh still has the render order 0 of a new mesh, which the script
  never assigns. So when all are present the orders increase strictly from the Earth to
  the atmosphere.
\<close>

theorem renderOrder_invariant:
  assumes "session E update win l g o0 t0 evs = Inr s"
  shows "renderOrder (earth s) = renderOrder (Mesh (geometry (earth s)) (mesh_material (earth s)))
     \<and> renderOrder (earth s) = 0
     \<and> (\<forall>n. nightMesh s = Some n \<longrightarrow> renderOrder n = 1)
     \<and> (\<forall>c. clouds s = Some c \<longrightarrow> renderOrder c = 2)
     \<and> renderOrder (atmosphere s) = 3
     \<and> (\<forall>n c. nightMesh s = Some n \<and> clouds s = Some c \<longrightarrow>
           renderOrder (earth s) < renderOrder n \<and> renderOrder n < renderOrder c
           \<and> renderOrder c < renderOrder (atmosphere s))"
proof -
  from assms obtain s0 where c: "compose E win l g o0 = Inr s0"
    and s: "s = run update (tick update t0 s0) evs" by (rule session_Inr)
  have e: "renderOrder (earth s) = 0"
    by (simp add: s run_orders tick_earth compose_earth [OF c])
  have a: "renderOrder (atmosphere s) = 3"
    by (simp add: s run_orders tick_rest compose_atmosphere [OF c])
  have "map_option renderOrder (nightMesh s) = map_option renderOrder (nightMesh s0)"
    by (simp add: s run_orders tick_nightMesh option.map_comp comp_def)
  then have n: "renderOrder n = 1" if "nightMesh s = Some n" for n
    using that by (auto simp: compose_night [OF c] Mesh_def split: sum.splits)
  have "map_option renderOrder (clouds s) = map_option renderOrder (clouds s0)"
    by (simp add: s run_orders tick_clouds option.map_comp comp_def)
  then have k: "renderOrder c = 2" if "clouds s = Some c" for c
    using that by (auto simp: compose_clouds [OF c] Mesh_def split: sum.splits)
  show ?thesis using e a n k by (simp add: Mesh_def)
qed

text \<open>A run with all textures loaded, a resize and a second frame.\<close>

theorem renderOrder_invariant_witness:
  "\<exists>s n c. session idealEngine stillControls exampleWindow loadAll (constRng (1/2)) () 0
               [Resize resizedWindow, Frame 1] = Inr s
      \<and> nightMesh s = Some n \<and> clouds s = Some c
      \<and> renderOrder (earth s) = 0 \<and> renderOrder n = 1 \<and> renderOrder c = 2
      \<and> renderOrder (atmosphere s) = 3"
proof -
  obtain s0 n0 c0 where s0: "compose idealEngine exampleWindow loadAll (constRng (1/2)) () = Inr s0"
    and n0: "nightMesh s0 = Some n0" and c0: "clouds s0 = Some c0" by (rule example_compose)
  define s where "s = run stillControls (tick stillControls 0 s0) [Resize resizedWindow, Frame 1]"
  have sess: "session idealEngine stillControls exampleWindow loadAll (constRng (1/2)) () 0
               [Resize resizedWindow, Frame 1] = Inr s"
    by (simp add: session_def s0 s_def)
  have "nightMesh s \<noteq> None" and "clouds s \<noteq> None"
    using n0 c0 by (simp_all add: s_def run_presence tick_nightMesh tick_clouds)
  then obtain n c where n: "nightMesh s = Some n" and c: "clouds s = Some c" by blast
  from renderOrder_invariant [OF sess] n c
  have "renderOrder (earth s) = 0 \<and> renderOrder n = 1 \<and> renderOrder c = 2
      \<and> renderOrder (atmosphere s) = 3"
    by simp
  with sess n c show ?thesis by blast
qed

text \<open>
  Claim C4. The claim says that an optional texture that is missing gives no mesh. The
  script adds the cloud mesh and the night mesh when \<open>tryLoad\<close> gave a handle,
  and \<open>tryLoad\<close> gives null only when the call of the loader throws. With a loader
  whose call returns a handle for every path, \<open>tryLoad\<close> gives a handle for every
  path, and in every state of a run the cloud mesh and the night mesh are present and
  are children of the scene. The loader of three.js is such a loader, also for a file
  that does not exist, so the script adds both meshes where the claim says it adds none.
\<close>

theorem optional_meshes_always_added:
  assumes "\<forall>q. \<exists>t. l q = Inr t" and "session E update win l g o0 t0 evs = Inr s"
  shows "tryLoad p l \<noteq> None
     \<and> clouds s \<noteq> None \<and> Clouds \<in> set (scene s)
     \<and> nightMesh s \<noteq> None \<and> NightLights \<in> set (scene s)"
proof -
  from assms(2) obtain s0 where c: "compose E win l g o0 = Inr s0"
    and s: "s = run update (tick update t0 s0) evs" by (rule session_Inr)
  obtain tp tc tn where l: "l p = Inr tp" "l cloudsPath = Inr tc" "l nightPath = Inr tn"
    using assms(1) by meson
  have 1: "(clouds s = None) = (clouds s0 = None)"
    by (simp add: s run_presence tick_clouds)
  have 2: "(nightMesh s = None) = (nightMesh s0 = None)"
    by (simp add: s run_presence tick_nightMesh)
  have 3: "scene s = scene s0" by (simp add: s run_presence tick_rest)
  show ?thesis
    unfolding 1 2 3
    by (simp add: compose_clouds [OF c] compose_night [OF c] compose_scene [OF c] tryLoad_def l)
qed

text \<open>
  The loader of three.js on a host without the cloud map and without the night map:
  \<open>tryLoad\<close> returns the handle, and both meshes are in the scene after the first
  two frames.
\<close>

theorem optional_meshes_always_added_witness:
  "tryLoad cloudsPath (threeLoader [cloudsPath, nightPath])
     = Some \<lparr> url = cloudsPath, colorSpace = NoColorSpace \<rparr>
   \<and> (\<exists>s. session idealEngine stillControls exampleWindow (threeLoader [cloudsPath, nightPath])
              (constRng (1/2)) () 0 [Frame 1] = Inr s
          \<and> clouds s \<noteq> None \<and> Clouds \<in> set (scene s)
          \<and> nightMesh s \<noteq> None \<and> NightLights \<in> set (scene s))"
proof -
  let ?l = "threeLoader [cloudsPath, nightPath]"
  have never: "\<forall>q. \<exists>t. ?l q = Inr t" by (simp add: threeLoader_def)
  have a: "tryLoad cloudsPath ?l = Some \<lparr> url = cloudsPath, colorSpace = NoColorSpace \<rparr>"
    by (simp add: tryLoad_def threeLoader_def)
  obtain s0 :: "unit state"
    where s0: "compose idealEngine exampleWindow ?l (constRng (1/2)) () = Inr s0"
    using compose_total [of ?l _ idealEngine exampleWindow "constRng (1/2)" "()"]
    by (auto simp: threeLoader_def)
  define s where "s = run stillControls (tick stillControls 0 s0) [Frame 1]"
  have sess: "session idealEngine stillControls exampleWindow ?l (constRng (1/2)) () 0 [Frame 1]
      = Inr s"
    by (simp add: session_def s0 s_def)
  from optional_meshes_always_added [OF never sess, of cloudsPath]
  have "clouds s \<noteq> None \<and> Clouds \<in> set (scene s)
          \<and> nightMesh s \<noteq> None \<and> NightLights \<in> set (scene s)"
    by simp
  with a sess show ?thesis by blast
qed

text \<open>
  Claim C5. The resize listener sets the aspect of the camera to the quotient of the new
  inner width and inner height as JavaScript computes it, which is the real quotient
  when the height is not 0; it recomputes the projection matrix from the unchanged
  field of view, near and far plane and the new aspect; it sets the size of the renderer
  to the new width and height, and its pixel ratio to the smaller of the device pixel
  ratio and 2.
\<close>

theorem resize_effect:
  "aspect (camera (resize win s)) = js_div (real (innerWidth win)) (real (innerHeight win))
   \<and> (innerHeight win \<noteq> 0 \<longrightarrow>
        aspect (camera (resize win s)) = Finite (real (innerWidth win) / real (innerHeight win)))
   \<and> projectionMatrix (camera (resize win s)) =
        Perspective (fov (camera s)) (js_div (real (innerWidth win)) (real (innerHeight win)))
          (near (camera s)) (far (camera s))
   \<and> width (renderer (resize win s)) = innerWidth win
   \<and> height (renderer (resize win s)) = innerHeight win
   \<and> pixelRatio (renderer (resize win s)) = min (devicePixelRatio win) 2"
  by (simp add: resize_camera resize_renderer updateProjectionMatrix_def setSize_def
      setPixelRatio_def js_div_def)

text \<open>A resize to 1024 by 768 at pixel ratio 1, and one at device pixel ratio 3.\<close>

theorem resize_effect_witness:
  "\<exists>s. compose idealEngine exampleWindow loadAll (constRng (1/2)) () = Inr s
      \<and> aspect (camera (resize resizedWindow s)) = Finite (1024 / 768)
      \<and> projectionMatrix (camera (resize resizedWindow s)) = Perspective 45 (Finite (1024 / 768)) 0.1 2000
      \<and> width (renderer (resize resizedWindow s)) = 1024
      \<and> height (renderer (resize resizedWindow s)) = 768
      \<and> pixelRatio (renderer (resize resizedWindow s)) = 1
      \<and> pixelRatio (renderer (resize exampleWindow s)) = 2"
proof -
  obtain s n c where s: "compose idealEngine exampleWindow loadAll (constRng (1/2)) () = Inr s"
    by (rule example_compose)
  have cam: "fov (camera s) = 45" "near (camera s) = 0.1" "far (camera s) = 2000"
    by (simp_all add: compose_camera [OF s] PerspectiveCamera_def updateProjectionMatrix_def)
  from resize_effect [of resizedWindow s] cam
  have a: "aspect (camera (resize resizedWindow s)) = Finite (1024 / 768)
      \<and> projectionMatrix (camera (resize resizedWindow s)) = Perspective 45 (Finite (1024 / 768)) 0.1 2000
      \<and> width (renderer (resize resizedWindow s)) = 1024
      \<and> height (renderer (resize resizedWindow s)) = 768
      \<and> pixelRatio (renderer (resize resizedWindow s)) = 1"
    by (simp add: resizedWindow_def js_div_def)
  from resize_effect [of exampleWindow s]
  have b: "pixelRatio (renderer (resize exampleWindow s)) = 2"
    by (simp add: exampleWindow_def)
  from s a b show ?thesis by blast
qed

text \<open>
  Claim C6, as amended. Point \<open>k\<close> of the star field is computed from three
  consecutive results \<open>a\<close>, \<open>u\<close>, \<open>v\<close> of the random source, all in
  \<open>[0, 1)\<close>, by the formulas of the claim with every operation rounded to binary64:
  \<open>r = radius + a * depth\<close>, \<open>theta = 2 * Math.PI * u\<close>,
  \<open>phi = Math.acos (2 * v - 1)\<close>, \<open>x = r * Math.sin phi * Math.cos theta\<close>,
  \<open>y = r * Math.sin phi * Math.sin theta\<close>, \<open>z = r * Math.cos phi\<close>; the stored
  point is \<open>x\<close>, \<open>y\<close>, \<open>z\<close> rounded to binary32. For a radius and a
  non-negative depth that are doubles, \<open>r\<close> is finite and lies in the closed
  interval from \<open>radius\<close> to the sum \<open>radius + depth\<close> as JavaScript computes
  it, whenever that sum is finite.
\<close>

theorem starField_point_formula:
  assumes "unit_rng g" and "isDouble (radius os)" and "isDouble (depth os)"
    and "makeStarField E os g = Inr p" and "int k < count os"
  shows "(let a = g (3 * k); u = g (3 * k + 1); v = g (3 * k + 2);
              r = add64 (Num (radius os)) (mul64 (Num a) (Num (depth os)));
              theta = mul64 (mul64 (Num 2) (Num Math_PI)) (Num u);
              phi = acos64 E (sub64 (mul64 (Num 2) (Num v)) (Num 1));
              x = mul64 (mul64 r (sin64 E phi)) (cos64 E theta);
              y = mul64 (mul64 r (sin64 E phi)) (sin64 E theta);
              z = mul64 r (cos64 E phi)
          in point p k = (fround x, fround y, fround z)
             \<and> 0 \<le> a \<and> a < 1 \<and> 0 \<le> u \<and> u < 1 \<and> 0 \<le> v \<and> v < 1
             \<and> (\<forall>S. 0 \<le> depth os \<and> add64 (Num (radius os)) (Num (depth os)) = Num S \<longrightarrow>
                  (\<exists>R. r = Num R \<and> radius os \<le> R \<and> R \<le> S)))"
proof -
  have pt: "point p k = starPoint E (sampledR os g k) (g (3 * k + 1)) (g (3 * k + 2))"
    using makeStarField_point [OF assms(4,5)] .
  have a: "0 \<le> g (3 * k)" "g (3 * k) < 1" using assms(1) by (simp_all add: unit_rng_def)
  have u: "0 \<le> g (3 * k + 1)" "g (3 * k + 1) < 1" using assms(1) by (simp_all add: unit_rng_def)
  have v: "0 \<le> g (3 * k + 2)" "g (3 * k + 2) < 1" using assms(1) by (simp_all add: unit_rng_def)
  have r: "\<exists>R. add64 (Num (radius os)) (mul64 (Num (g (3 * k))) (Num (depth os))) = Num R
             \<and> radius os \<le> R \<and> R \<le> S"
    if "0 \<le> depth os" and "add64 (Num (radius os)) (Num (depth os)) = Num S" for S
    using sampledR_range [OF a assms(2,3) that] by blast
  show ?thesis
    unfolding Let_def
    using pt a u v r by (simp add: starPoint_def sampledR_def Let_def)
qed

text \<open>
  One point at radius 900, depth 600, every draw the largest double below 1, on the
  engine with correctly rounded functions.
\<close>

theorem starField_point_formula_witness:
  "\<exists>p R. makeStarField idealEngine \<lparr> count = 1, radius = 900, depth = 600 \<rparr>
            (constRng (1 - 1 / 2 ^ 53)) = Inr p
      \<and> sampledR \<lparr> count = 1, radius = 900, depth = 600 \<rparr> (constRng (1 - 1 / 2 ^ 53)) 0 = Num R
      \<and> 900 \<le> R \<and> R \<le> 1500
      \<and> point p 0 =
          starPoint idealEngine
            (sampledR \<lparr> count = 1, radius = 900, depth = 600 \<rparr> (constRng (1 - 1 / 2 ^ 53)) 0)
            (constRng (1 - 1 / 2 ^ 53) (3 * 0 + 1)) (constRng (1 - 1 / 2 ^ 53) (3 * 0 + 2))"
proof -
  let ?os = "\<lparr> count = 1, radius = 900, depth = 600 \<rparr>"
  let ?g = "constRng (1 - 1 / 2 ^ 53)"
  have u: "unit_rng ?g" by (simp add: unit_rng_def constRng_def)
  obtain p where m: "makeStarField idealEngine ?os ?g = Inr p"
    using makeStarField_Inr [of ?os idealEngine ?g] by simp
  have S: "0 \<le> depth ?os \<and> add64 (Num (radius ?os)) (Num (depth ?os)) = Num 1500"
    using rnd64_double [OF isDouble_numerals(7)] by simp
  have k: "int 0 < count ?os" by simp
  have d: "isDouble (radius ?os)" "isDouble (depth ?os)" by (simp_all add: isDouble_numerals)
  note T = starField_point_formula [OF u d m k, unfolded Let_def]
  have P: "point p 0 = starPoint idealEngine (sampledR ?os ?g 0) (?g (3 * 0 + 1)) (?g (3 * 0 + 2))"
    unfolding starPoint_def sampledR_def Let_def by (rule T [THEN conjunct1])
  from T have "\<forall>S. 0 \<le> depth ?os \<and> add64 (Num (radius ?os)) (Num (depth ?os)) = Num S \<longrightarrow>
      (\<exists>R. add64 (Num (radius ?os)) (mul64 (Num (?g (3 * 0))) (Num (depth ?os))) = Num R
          \<and> radius ?os \<le> R \<and> R \<le> S)"
    by (elim conjE)
  with S obtain R where "sampledR ?os ?g 0 = Num R" and "radius ?os \<le> R" and "R \<le> 1500"
    unfolding sampledR_def by blast
  then have "sampledR ?os ?g 0 = Num R \<and> 900 \<le> R \<and> R \<le> 1500" by simp
  with m P show ?thesis by blast
qed

text \<open>
  Claim C6 as it was stated puts every sampled radius in the half-open interval from
  \<open>radius\<close> to \<open>radius + depth\<close>. Take radius 900, depth 600 and the draw
  \<open>1 - 1 / 2 ^ 53\<close>, the largest double below 1. The product with the depth
  rounds to \<open>600 - 1 / 2 ^ 43\<close> and the sum with the radius is a tie that rounds
  to 1500, the end of the interval that the claim excludes.
\<close>

theorem starField_radius_interval_counterexample:
  "isDouble (1 - 1 / 2 ^ 53) \<and> 0 \<le> (1 - 1 / 2 ^ 53 :: real) \<and> (1 - 1 / 2 ^ 53 :: real) < 1
   \<and> sampledR \<lparr> count = 1, radius = 900, depth = 600 \<rparr> (constRng (1 - 1 / 2 ^ 53)) 0 = Num 1500
   \<and> add64 (Num 900) (Num 600) = Num 1500
   \<and> \<not> (radius \<lparr> count = 1, radius = 900, depth = 600 \<rparr> \<le> (1500::real)
        \<and> (1500::real) < radius \<lparr> count = 1, radius = 900, depth = 600 \<rparr>
                           + depth \<lparr> count = 1, radius = 900, depth = 600 \<rparr>)"
proof -
  have A: "add64 (Num 900) (Num 600) = Num 1500"
    using rnd64_double [OF isDouble_numerals(7)] by simp
  have s: "sampledR \<lparr> count = 1, radius = 900, depth = 600 \<rparr> (constRng (1 - 1 / 2 ^ 53)) 0
      = Num 1500"
    unfolding sampledR_def constRng_def
    by (simp only: opts.select_convs mul_near_one add_to_1500)
  show ?thesis using draw_near_one s A by simp
qed

text \<open>
  Claim C7. A frame in which the night mesh is present leaves it present and sets the
  opacity of its material to the constant 0.6. The light plays no part: replacing the
  sun by any other light before the frame gives the same night mesh.
\<close>

theorem tick_night_opacity:
  "(\<forall>n. nightMesh s = Some n \<longrightarrow>
      (\<exists>n'. nightMesh (tick update t s) = Some n' \<and> opacity (mesh_material n') = 0.6))
   \<and> nightMesh (tick update t (s\<lparr>sun := L\<rparr>)) = nightMesh (tick update t s)"
  by (simp add: tick_nightMesh)

text \<open>The night mesh is built with opacity 1; one frame makes it 0.6.\<close>

theorem tick_night_opacity_witness:
  "\<exists>s n. compose idealEngine exampleWindow loadAll (constRng (1/2)) () = Inr s \<and> nightMesh s = Some n
      \<and> opacity (mesh_material n) = 1
      \<and> (\<exists>n'. nightMesh (tick stillControls 10 s) = Some n' \<and> opacity (mesh_material n') = 0.6)"
proof -
  obtain s n c where s: "compose idealEngine exampleWindow loadAll (constRng (1/2)) () = Inr s"
    and n: "nightMesh s = Some n" by (rule example_compose)
  have o: "opacity (mesh_material n) = 1"
    using n by (auto simp: compose_night [OF s] loadAll_def Mesh_def Material_def)
  from tick_night_opacity [of s stillControls 10] n
  have "\<exists>n'. nightMesh (tick stillControls 10 s) = Some n' \<and> opacity (mesh_material n') = 0.6"
    by simp
  with s n o show ?thesis by blast
qed

text \<open>
  Claim C8. The camera built at start-up has field of view 45, near plane 0.1, far plane
  2000 and as aspect the quotient of the inner width and inner height of the window,
  and its projection matrix is computed from these. The controls have damping enabled
  with factor 0.06 and distance bounds 3 and 20. These settings are still in force in
  every later state of a run, and a frame applies the update of the controls exactly
  once, to the controls and the camera pose as they are at that frame.
\<close>

theorem camera_and_controls_setup:
  assumes "compose E win l g o0 = Inr s"
  shows "fov (camera s) = 45 \<and> near (camera s) = 0.1 \<and> far (camera s) = 2000
     \<and> aspect (camera s) = js_div (real (innerWidth win)) (real (innerHeight win))
     \<and> (innerHeight win \<noteq> 0 \<longrightarrow>
          aspect (camera s) = Finite (real (innerWidth win) / real (innerHeight win)))
     \<and> projectionMatrix (camera s) = Perspective 45 (aspect (camera s)) 0.1 2000
     \<and> enableDamping (controls s) \<and> dampingFactor (controls s) = 0.06
     \<and> minDistance (controls s) = 3.0 \<and> maxDistance (controls s) = 20.0
     \<and> (let s' = run update (tick update t0 s) evs
        in enableDamping (controls s') \<and> dampingFactor (controls s') = 0.06
           \<and> minDistance (controls s') = 3.0 \<and> maxDistance (controls s') = 20.0
           \<and> fov (camera s') = 45 \<and> near (camera s') = 0.1 \<and> far (camera s') = 2000
           \<and> (internal (controls (tick update t s')),
               position (camera (tick update t s')),
               quaternion (camera (tick update t s')))
             = update (controls s') (position (camera s'), quaternion (camera s')))"
proof -
  have cam: "fov (camera s) = 45 \<and> near (camera s) = 0.1 \<and> far (camera s) = 2000
     \<and> aspect (camera s) = js_div (real (innerWidth win)) (real (innerHeight win))
     \<and> projectionMatrix (camera s) = Perspective 45 (aspect (camera s)) 0.1 2000"
    by (simp add: compose_camera [OF assms] PerspectiveCamera_def updateProjectionMatrix_def)
  have ctl: "enableDamping (controls s) \<and> dampingFactor (controls s) = 0.06
     \<and> minDistance (controls s) = 3.0 \<and> maxDistance (controls s) = 20.0"
    by (simp add: compose_controls [OF assms])
  have later: "enableDamping (controls s') \<and> dampingFactor (controls s') = 0.06
           \<and> minDistance (controls s') = 3.0 \<and> maxDistance (controls s') = 20.0
           \<and> fov (camera s') = 45 \<and> near (camera s') = 0.1 \<and> far (camera s') = 2000"
    if "s' = run update (tick update t0 s) evs" for s'
    using cam ctl by (simp add: that run_settings tick_controls tick_camera)
  have once: "(internal (controls (tick update t s')),
               position (camera (tick update t s')),
               quaternion (camera (tick update t s')))
             = update (controls s') (position (camera s'), quaternion (camera s'))" for s'
    by (simp add: tick_controls tick_camera)
  show ?thesis
    unfolding Let_def using cam ctl later once by (simp add: js_div_def)
qed

text \<open>An 800 by 600 window.\<close>

theorem camera_and_controls_setup_witness:
  "\<exists>s. compose idealEngine exampleWindow loadAll (constRng (1/2)) () = Inr s
      \<and> fov (camera s) = 45 \<and> near (camera s) = 0.1 \<and> far (camera s) = 2000
      \<and> aspect (camera s) = Finite (800 / 600)
      \<and> dampingFactor (controls s) = 0.06 \<and> minDistance (controls s) = 3
      \<and> maxDistance (controls s) = 20
      \<and> dampingFactor (controls (run stillControls (tick stillControls 0 s) [Frame 1])) = 0.06"
proof -
  obtain s n c where s: "compose idealEngine exampleWindow loadAll (constRng (1/2)) () = Inr s"
    by (rule example_compose)
  from camera_and_controls_setup [OF s, of stillControls 0 "[Frame 1]" 1]
  have "fov (camera s) = 45 \<and> near (camera s) = 0.1 \<and> far (camera s) = 2000
      \<and> aspect (camera s) = Finite (800 / 600)
      \<and> dampingFactor (controls s) = 0.06 \<and> minDistance (controls s) = 3
      \<and> maxDistance (controls s) = 20
      \<and> dampingFactor (controls (run stillControls (tick stillControls 0 s) [Frame 1])) = 0.06"
    unfolding Let_def by (simp add: exampleWindow_def js_div_def)
  with s show ?thesis by blast
qed

text \<open>
  Claim C9. A frame changes the state in these places only: the rotation of the Earth,
  the rotation of the clouds, the opacity of the night material, the internal state of
  the controls and the position and orientation of the camera as the update of the
  controls returns them, and the two counters of issued draws and requested frames. In
  particular the star field, the render order and geometry of every mesh, and the field
  of view, near plane and far plane of the camera are what they were.
\<close>

theorem tick_frame:
  "tick update t s =
     s\<lparr> earth := (earth s)\<lparr>rotation_y := t * 0.08\<rparr>,
        clouds := map_option (\<lambda>c. c\<lparr>rotation_y := t * 0.11\<rparr>) (clouds s),
        nightMesh :=
          map_option (\<lambda>n. n\<lparr>mesh_material := (mesh_material n)\<lparr>opacity := 0.6\<rparr>\<rparr>) (nightMesh s),
        controls :=
          (controls s)\<lparr>internal :=
             fst (update (controls s) (position (camera s), quaternion (camera s)))\<rparr>,
        camera :=
          (camera s)\<lparr>position :=
             fst (snd (update (controls s) (position (camera s), quaternion (camera s)))),
           quaternion :=
             snd (snd (update (controls s) (position (camera s), quaternion (camera s))))\<rparr>,
        rendered := rendered s + 1,
        requested := requested s + 1 \<rparr>
   \<and> stars (tick update t s) = stars s
   \<and> renderOrder (earth (tick update t s)) = renderOrder (earth s)
   \<and> geometry (earth (tick update t s)) = geometry (earth s)
   \<and> map_option renderOrder (nightMesh (tick update t s)) = map_option renderOrder (nightMesh s)
   \<and> map_option geometry (nightMesh (tick update t s)) = map_option geometry (nightMesh s)
   \<and> map_option renderOrder (clouds (tick update t s)) = map_option renderOrder (clouds s)
   \<and> map_option geometry (clouds (tick update t s)) = map_option geometry (clouds s)
   \<and> atmosphere (tick update t s) = atmosphere s
   \<and> fov (camera (tick update t s)) = fov (camera s)
   \<and> near (camera (tick update t s)) = near (camera s)
   \<and> far (camera (tick update t s)) = far (camera s)"
  by (simp add: tick_earth tick_clouds tick_nightMesh tick_controls tick_camera tick_rest
      option.map_comp comp_def)

text \<open>
  Claim C10. Called with \<open>count = 0\<close>, \<open>makeStarField\<close> throws nothing: it
  returns a cloud whose position buffer is empty, so it has zero points, and its loop
  draws no random number.
\<close>

theorem makeStarField_zero:
  "makeStarField E \<lparr> count = 0, radius = rad, depth = dep \<rparr> g =
     Inr \<lparr> positions = [], itemSize = 3,
            points_material = \<lparr> pm_color = 0xffffff, pm_size = 1.2, pm_sizeAttenuation = True,
                       pm_transparent = True, pm_opacity = 0.9, pm_depthWrite = False \<rparr> \<rparr>
   \<and> pointCount \<lparr> positions = [], itemSize = 3,
            points_material = \<lparr> pm_color = 0xffffff, pm_size = 1.2, pm_sizeAttenuation = True,
                       pm_transparent = True, pm_opacity = 0.9, pm_depthWrite = False \<rparr> \<rparr> = 0
   \<and> starLoop E 0 rad dep 0 g [] = ([], g)"
  by (simp add: makeStarField_def Float32Array_def starLoop.simps pointCount_def)

end
